theory Spec2Isabelle
  imports Main
begin

section \<open>The etcd watcher of gogeta (etcdwatcher.go)\<close>

text \<open>
  The watcher mirrors two etcd directories into two in-memory registries: the domains
  (\<open>map[string]*Domain\<close>) and the services (\<open>map[string]*ServiceCluster\<close>).
  Every function of \<^verbatim>\<open>etcdwatcher.go\<close> that decodes a key or changes a registry is
  translated below. What the Go code does beyond returning a value is explicit:
  \<^item> a run-time panic (an index out of range, a nil pointer dereference, an assignment
    to an entry of a nil map) is the left summand of the result;
  \<^item> the registries are fields of the watcher record, returned updated;
  \<^item> the calls to the etcd client and to the logger are appended to a trace, in the
    order the code makes them.
\<close>

subsection \<open>Data from the etcd client library\<close>

text \<open>
  \<^verbatim>\<open>etcd.Node\<close> (the fields the watcher reads) and \<^verbatim>\<open>etcd.Response\<close>. A Go string is
  a sequence of bytes, as an Isabelle string is.
\<close>

datatype node = EtcdNode (Key: string) (Value: string) (Nodes: "node list")

record response =
  Action :: string
  Node :: node

text \<open>The run-time panics the watcher can raise.\<close>

datatype error = IndexOutOfRange | NilDereference | NilMapAssignment

subsection \<open>Strings and regular expressions\<close>

text \<open>
  \<^verbatim>\<open>strings.Split(s, "/")\<close>: the pieces of \<open>s\<close> between the separators; never empty
  (the split of the empty string is one empty piece).
\<close>

fun Split :: "string \<Rightarrow> char \<Rightarrow> string list" where
  "Split [] sep = [[]]"
| "Split (c # cs) sep =
     (if c = sep then [] # Split cs sep
      else (case Split cs sep of
              [] \<Rightarrow> [[c]]
            | p # ps \<Rightarrow> (c # p) # ps))"

text \<open>Indexing a slice: Go panics out of range.\<close>

definition index_at :: "'a list \<Rightarrow> nat \<Rightarrow> error + 'a" where
  "index_at xs i = (if i < length xs then Inr (xs ! i) else Inl IndexOutOfRange)"

text \<open>
  The regular expressions of the watcher are all of the shape
  \<^verbatim>\<open>prefix + "/" + rest\<close>, unanchored, where \<open>prefix\<close> is the configured directory. The
  prefix is taken as a literal (a directory name without regular-expression
  meta-characters, such as \<^verbatim>\<open>/domains\<close>). In Go's syntax \<^verbatim>\<open>.\<close> matches every character
  but the newline, a match is the leftmost one, and \<^verbatim>\<open>.*\<close> and \<^verbatim>\<open>.+\<close> are greedy.

  \<open>dot_star s\<close> is what a greedy \<^verbatim>\<open>.*\<close> can take at most from the start of \<open>s\<close>.
\<close>

definition dot_star :: "string \<Rightarrow> string" where
  "dot_star s = takeWhile (\<lambda>c. c \<noteq> CHR 0x0A) s"

definition starts_with :: "string \<Rightarrow> string \<Rightarrow> bool" where
  "starts_with lit s = (take (length lit) s = lit)"

text \<open>
  \<open>leftmost rest lit s\<close>: the leftmost position of \<open>s\<close> where the literal \<open>lit\<close> stands
  and \<open>rest\<close> matches what follows it; the result is what \<open>rest\<close> captured there, and
  \<open>None\<close> when the expression matches nowhere.
\<close>

fun leftmost :: "(string \<Rightarrow> 'a option) \<Rightarrow> string \<Rightarrow> string \<Rightarrow> 'a option" where
  "leftmost rest lit [] = (if lit = [] then rest [] else None)"
| "leftmost rest lit (c # cs) =
     (if starts_with lit (c # cs) then
        (case rest (drop (length lit) (c # cs)) of
           Some r \<Rightarrow> Some r
         | None \<Rightarrow> leftmost rest lit cs)
      else leftmost rest lit cs)"

text \<open>
  \<open>greedy_split lit s\<close> matches \<^verbatim>\<open>(.*)lit(.+)\<close> at the start of the line \<open>s\<close>: the first
  group is the longest possible, so the split is at the last place where \<open>lit\<close> stands
  with something after it.
\<close>

fun greedy_split :: "string \<Rightarrow> string \<Rightarrow> (string \<times> string) option" where
  "greedy_split lit [] = None"
| "greedy_split lit (c # cs) =
     (case greedy_split lit cs of
        Some (a, b) \<Rightarrow> Some (c # a, b)
      | None \<Rightarrow>
          if starts_with lit (c # cs) \<and> drop (length lit) (c # cs) \<noteq> []
          then Some ([], drop (length lit) (c # cs))
          else None)"

text \<open>\<open>contains lit s\<close> matches \<^verbatim>\<open>.*lit.*\<close> on the line \<open>s\<close>.\<close>

definition contains :: "string \<Rightarrow> string \<Rightarrow> bool" where
  "contains lit s = (leftmost (\<lambda>_. Some ()) lit s \<noteq> None)"

subsection \<open>The key-path decoders\<close>

text \<open>
  \<^verbatim>\<open>regexp.MustCompile(prefix + "/(.*)").FindStringSubmatch(key)\<close>: \<open>None\<close> is the nil
  slice Go returns when the expression does not match; otherwise the first group.
  The service expression \<^verbatim>\<open>prefix + "/(.*)(/.*)*"\<close> has the same first group: the greedy
  \<^verbatim>\<open>(.*)\<close> takes the rest of the line and the second group repeats zero times.
\<close>

definition submatch_rest :: "string \<Rightarrow> string \<Rightarrow> string option" where
  "submatch_rest prefix key = leftmost (\<lambda>t. Some (dot_star t)) (prefix @ ''/'') key"

text \<open>\<^verbatim>\<open>prefix + "/.*/config.*"\<close> with \<^verbatim>\<open>MatchString\<close>.\<close>

definition match_config :: "string \<Rightarrow> string \<Rightarrow> bool" where
  "match_config prefix key =
     (leftmost (\<lambda>t. if contains ''/config'' (dot_star t) then Some () else None)
        (prefix @ ''/'') key \<noteq> None)"

text \<open>
  \<^verbatim>\<open>prefix + "/(.*)/config/(.+)"\<close> with \<^verbatim>\<open>FindStringSubmatch\<close>: both groups.
  \<^verbatim>\<open>prefix + "/.*/config/(.+)"\<close> matches the same strings, and its only group is the
  second one here.
\<close>

definition submatch_config :: "string \<Rightarrow> string \<Rightarrow> (string \<times> string) option" where
  "submatch_config prefix key =
     leftmost (\<lambda>t. greedy_split ''/config/'' (dot_star t)) (prefix @ ''/'') key"

text \<open>
  The decoders index the result of \<^verbatim>\<open>FindStringSubmatch\<close> without a check: on a key
  the expression does not match, the index is out of range.
\<close>

definition getDomainForNode :: "string \<Rightarrow> node \<Rightarrow> error + string" where
  "getDomainForNode domainPrefix n =
     (case submatch_rest domainPrefix (Key n) of
        None \<Rightarrow> Inl IndexOutOfRange
      | Some g \<Rightarrow> index_at (Split g CHR ''/'') 0)"

definition getEnvForNode :: "string \<Rightarrow> node \<Rightarrow> error + string" where
  "getEnvForNode servicePrefix n =
     (case submatch_rest servicePrefix (Key n) of
        None \<Rightarrow> Inl IndexOutOfRange
      | Some g \<Rightarrow> index_at (Split g CHR ''/'') 0)"

definition getEnvIndexForNode :: "string \<Rightarrow> node \<Rightarrow> error + string" where
  "getEnvIndexForNode servicePrefix n =
     (case submatch_rest servicePrefix (Key n) of
        None \<Rightarrow> Inl IndexOutOfRange
      | Some g \<Rightarrow> index_at (Split g CHR ''/'') 1)"

definition isDomainConfiguration :: "string \<Rightarrow> node \<Rightarrow> bool" where
  "isDomainConfiguration domainPrefix n = match_config domainPrefix (Key n)"

definition getDomainConfiguration :: "string \<Rightarrow> node \<Rightarrow> error + (string \<times> string)" where
  "getDomainConfiguration domainPrefix n =
     (case submatch_config domainPrefix (Key n) of
        None \<Rightarrow> Inl IndexOutOfRange
      | Some (g1, g2) \<Rightarrow>
          (case index_at (Split g2 CHR ''/'') 0 of
             Inl e \<Rightarrow> Inl e
           | Inr k \<Rightarrow> Inr (k, Value n)))"

subsection \<open>The entity model\<close>

text \<open>
  The structs \<^verbatim>\<open>Domain\<close>, \<^verbatim>\<open>Service\<close>, \<^verbatim>\<open>location\<close>, \<^verbatim>\<open>Status\<close>, \<^verbatim>\<open>ServiceCluster\<close> and
  \<^verbatim>\<open>Config\<close> are declared in other files of the repository; the fields below are the
  ones the watcher reads and writes, with the types its code forces. The fields \<^verbatim>\<open>typ\<close>
  and \<^verbatim>\<open>value\<close> of a Domain and the two \<^verbatim>\<open>config\<close> fields carry a suffix here, since
  Isabelle reserves the first two names and a field name is global.

  The \<^verbatim>\<open>config\<close> of a Domain is a Go map: \<open>None\<close> is the nil map of a fresh
  \<^verbatim>\<open>&Domain{}\<close>, which can be read and deleted from but not assigned to.
\<close>

record Domain =
  typ_D :: string
  value_D :: string
  config_D :: "(string \<rightharpoonup> string) option"

definition new_Domain :: Domain where
  "new_Domain = \<lparr>typ_D = [], value_D = [], config_D = None\<rparr>"

text \<open>
  Modelled from the spec: the method \<^verbatim>\<open>equals\<close> of \<^verbatim>\<open>Domain\<close>, called at line 123 and
  defined outside \<^verbatim>\<open>etcdwatcher.go\<close>. The spec compares two Domains "by value, not
  identity, comparing kind/target; a missing current Domain counts as different".
\<close>

definition Domain_equals :: "Domain \<Rightarrow> Domain option \<Rightarrow> bool" where
  "Domain_equals d other =
     (case other of
        None \<Rightarrow> False
      | Some a \<Rightarrow> typ_D d = typ_D a \<and> value_D d = value_D a)"

record location =
  Host :: string
  Port :: int

record Status =
  alive :: string
  current :: string
  expected :: string

text \<open>
  \<^verbatim>\<open>ServiceConfig\<close> is decoded from JSON and never inspected by the watcher: it is the
  type parameter \<open>'c\<close>. The back pointer \<^verbatim>\<open>status.service\<close> of a Status points to the
  Service that owns it and carries no information of its own. \<^verbatim>\<open>service.location\<close>
  and \<^verbatim>\<open>service.config\<close> are never nil in a Service the watcher builds;
  \<^verbatim>\<open>service.status\<close> is nil (\<open>None\<close>) until a status node is read.
\<close>

record 'c Service =
  location :: location
  config_S :: 'c
  index :: string
  nodeKey :: string
  name :: string
  domain :: string
  status :: "Status option"

text \<open>
  Modelled from the spec: the type \<^verbatim>\<open>ServiceCluster\<close> with its methods \<^verbatim>\<open>Get\<close> and
  \<^verbatim>\<open>Add\<close> and the method \<^verbatim>\<open>equals\<close> of \<^verbatim>\<open>Service\<close>, all defined outside
  \<^verbatim>\<open>etcdwatcher.go\<close>. The spec: a cluster is a "mapping from instance index to
  Service"; "get(index) returns the instance or a not-found indicator", "put(instance)
  inserts or replaces by index"; the comparison of Services "covers all fields" and
  "absence counts as different".
\<close>

record 'c ServiceCluster =
  instances :: "string \<rightharpoonup> 'c Service"

definition new_ServiceCluster :: "'c ServiceCluster" where
  "new_ServiceCluster = \<lparr>instances = Map.empty\<rparr>"

definition cluster_Get :: "'c ServiceCluster \<Rightarrow> string \<Rightarrow> 'c Service option" where
  "cluster_Get cl i = instances cl i"

definition cluster_Add :: "'c ServiceCluster \<Rightarrow> 'c Service \<Rightarrow> 'c ServiceCluster" where
  "cluster_Add cl s = cl\<lparr>instances := (instances cl)(index s \<mapsto> s)\<rparr>"

definition Service_equals :: "'c Service option \<Rightarrow> 'c Service \<Rightarrow> bool" where
  "Service_equals actual s = (case actual of None \<Rightarrow> False | Some a \<Rightarrow> a = s)"

record Config =
  domainPrefix :: string
  servicePrefix :: string

subsection \<open>The watcher\<close>

text \<open>
  What the watcher does to the world outside its registries: the reads it sends to etcd
  (\<^verbatim>\<open>client.Get(key, sort, recursive)\<close>) and the lines it logs.
\<close>

datatype event =
    Get string bool bool
  | Registered_domain string string string
  | Removing_service string
  | Registering_service string string int
  | Registering_service_without_location string
  | Unable_to_get_service string

text \<open>
  The struct \<^verbatim>\<open>watcher\<close>. The etcd client is the function that answers a read:
  \<open>None\<close> when \<^verbatim>\<open>Get\<close> returns an error. The domain registry maps a name to the Domain
  its pointer leads to: every pointer the watcher stores is the one of a Domain it has
  just allocated (line 106), so two names never share a Domain and the assignment
  through a pointer at line 117 changes the entry of one name. \<open>trace\<close> is the list of
  events so far.
\<close>

record 'c watcher =
  client :: "string \<Rightarrow> bool \<Rightarrow> bool \<Rightarrow> response option"
  config :: Config
  domains :: "string \<rightharpoonup> Domain"
  services :: "string \<rightharpoonup> 'c ServiceCluster"
  trace :: "event list"

definition emit :: "event \<Rightarrow> 'c watcher \<Rightarrow> 'c watcher" where
  "emit e w = w\<lparr>trace := trace w @ [e]\<rparr>"

subsection \<open>The domain registrar\<close>

definition RemoveDomain :: "string \<Rightarrow> 'c watcher \<Rightarrow> 'c watcher" where
  "RemoveDomain key w = w\<lparr>domains := (domains w)(key := None)\<rparr>"

text \<open>
  Line 143: \<^verbatim>\<open>w.domains[g1]\<close> is nil when no Domain is registered under the first
  group, and reading the field \<^verbatim>\<open>config\<close> of a nil pointer panics. \<^verbatim>\<open>delete\<close> on a nil
  map does nothing.
\<close>

definition removeDomainConfiguration :: "node \<Rightarrow> 'c watcher \<Rightarrow> error + 'c watcher" where
  "removeDomainConfiguration n w =
     (case submatch_config (domainPrefix (config w)) (Key n) of
        None \<Rightarrow> Inr w
      | Some (g1, g2) \<Rightarrow>
          (case domains w g1 of
             None \<Rightarrow> Inl NilDereference
           | Some d \<Rightarrow>
               (case index_at (Split g2 CHR ''/'') 0 of
                  Inl e \<Rightarrow> Inl e
                | Inr k \<Rightarrow>
                    Inr (w\<lparr>domains := (domains w)
                          (g1 \<mapsto> d\<lparr>config_D := map_option (\<lambda>m. m(k := None)) (config_D d)\<rparr>)\<rparr>))))"

text \<open>
  The body of the loop of lines 107 to 119 on one sub-node: the switch on the key fills
  the fresh Domain; a configuration node is written into the config of the Domain that
  is registered (line 117), which panics when there is none or when its map is nil.
\<close>

definition walk_node :: "string \<Rightarrow> node \<Rightarrow> Domain \<times> 'c watcher \<Rightarrow> error + (Domain \<times> 'c watcher)" where
  "walk_node domainKey n dw =
     (let d0 = fst dw; w = snd dw;
          domain1 = (if Key n = domainKey @ ''/type'' then d0\<lparr>typ_D := Value n\<rparr>
                     else if Key n = domainKey @ ''/value'' then d0\<lparr>value_D := Value n\<rparr>
                     else d0)
      in if isDomainConfiguration (domainPrefix (config w)) n then
           (case getDomainConfiguration (domainPrefix (config w)) n of
              Inl e \<Rightarrow> Inl e
            | Inr kv \<Rightarrow>
                (case getDomainForNode (domainPrefix (config w)) n of
                   Inl e \<Rightarrow> Inl e
                 | Inr nm \<Rightarrow>
                     (case domains w nm of
                        None \<Rightarrow> Inl NilDereference
                      | Some d \<Rightarrow>
                          (case config_D d of
                             None \<Rightarrow> Inl NilMapAssignment
                           | Some m \<Rightarrow>
                               Inr (domain1, w\<lparr>domains := (domains w)
                                      (nm \<mapsto> d\<lparr>config_D := Some (m(fst kv \<mapsto> snd kv))\<rparr>)\<rparr>)))))
         else Inr (domain1, w))"

fun walk_nodes :: "string \<Rightarrow> node list \<Rightarrow> Domain \<times> 'c watcher \<Rightarrow> error + (Domain \<times> 'c watcher)" where
  "walk_nodes domainKey [] dw = Inr dw"
| "walk_nodes domainKey (n # ns) dw =
     (case walk_node domainKey n dw of
        Inl e \<Rightarrow> Inl e
      | Inr dw' \<Rightarrow> walk_nodes domainKey ns dw')"

text \<open>Lines 121 to 126: the comparison with the registered Domain and the publication.\<close>

definition publish_domain :: "string \<Rightarrow> Domain \<Rightarrow> 'c watcher \<Rightarrow> 'c watcher" where
  "publish_domain domainName d w =
     (if typ_D d \<noteq> [] \<and> value_D d \<noteq> [] \<and> \<not> Domain_equals d (domains w domainName)
      then emit (Registered_domain domainName (typ_D d) (value_D d))
             (w\<lparr>domains := (domains w)(domainName \<mapsto> d)\<rparr>)
      else w)"

text \<open>
  \<^verbatim>\<open>registerDomain\<close>, lines 89 to 128. The read of line 94 is sent before the action is
  looked at, with \<^verbatim>\<open>sort = true\<close> and \<^verbatim>\<open>recursive = false\<close>.
\<close>

definition registerDomain :: "node \<Rightarrow> string \<Rightarrow> 'c watcher \<Rightarrow> error + 'c watcher" where
  "registerDomain n action w =
     (case getDomainForNode (domainPrefix (config w)) n of
        Inl e \<Rightarrow> Inl e
      | Inr domainName \<Rightarrow>
          (let domainKey = domainPrefix (config w) @ ''/'' @ domainName;
               w1 = emit (Get domainKey True False) w
           in if action = ''delete'' \<or> action = ''expire'' then
                (if isDomainConfiguration (domainPrefix (config w1)) n
                 then removeDomainConfiguration n w1
                 else Inr (RemoveDomain domainName w1))
              else
                (case client w1 domainKey True False of
                   None \<Rightarrow> Inr w1
                 | Some r \<Rightarrow>
                     (case walk_nodes domainKey (Nodes (Node r)) (new_Domain, w1) of
                        Inl e \<Rightarrow> Inl e
                      | Inr dw \<Rightarrow> Inr (publish_domain domainName (fst dw) (snd dw))))))"

subsection \<open>The service registrar\<close>

text \<open>
  \<^verbatim>\<open>json.Unmarshal\<close> belongs to Go's library: the two decoders the watcher calls are
  parameters of the registrar, \<open>None\<close> standing for a returned error, with the zero value
  of \<^verbatim>\<open>ServiceConfig\<close> that \<^verbatim>\<open>&ServiceConfig{}\<close> allocates. The decoder of a location is
  modelled further down (\<open>decode_location\<close>, \<open>go_json\<close>).
\<close>

record 'c json =
  unmarshal_location :: "string \<Rightarrow> location option"
  unmarshal_config :: "string \<Rightarrow> 'c option"
  zero_config :: 'c

definition RemoveEnv :: "string \<Rightarrow> 'c watcher \<Rightarrow> 'c watcher" where
  "RemoveEnv serviceName w = w\<lparr>services := (services w)(serviceName := None)\<rparr>"

text \<open>Lines 193 to 198: the fresh Service.\<close>

definition new_Service :: "'c json \<Rightarrow> string \<Rightarrow> string \<Rightarrow> string \<Rightarrow> 'c Service" where
  "new_Service js serviceIndex serviceKey serviceName =
     \<lparr>location = \<lparr>Host = [], Port = 0\<rparr>, config_S = zero_config js, index = serviceIndex,
      nodeKey = serviceKey, name = serviceName, domain = [], status = None\<rparr>"

text \<open>Lines 217 to 226: the children of the config node.\<close>

definition config_leaf :: "'c json \<Rightarrow> string \<Rightarrow> 'c Service \<Rightarrow> node \<Rightarrow> 'c Service" where
  "config_leaf js configKey s subNode =
     (if Key subNode = configKey @ ''/gogeta'' then
        (case unmarshal_config js (Value subNode) of
           None \<Rightarrow> s
         | Some c \<Rightarrow> s\<lparr>config_S := c\<rparr>)
      else s)"

text \<open>Lines 234 to 243: the children of the status node.\<close>

definition status_leaf :: "string \<Rightarrow> Status \<Rightarrow> node \<Rightarrow> Status" where
  "status_leaf statusKey st subNode =
     (if Key subNode = statusKey @ ''/alive'' then st\<lparr>alive := Value subNode\<rparr>
      else if Key subNode = statusKey @ ''/current'' then st\<lparr>current := Value subNode\<rparr>
      else if Key subNode = statusKey @ ''/expected'' then st\<lparr>expected := Value subNode\<rparr>
      else st)"

text \<open>
  The switch of lines 207 to 244 on one node of the instance. A location that does not
  decode leaves the Service as it is; a status node replaces the Status by a fresh one.
\<close>

definition service_node :: "'c json \<Rightarrow> string \<Rightarrow> 'c Service \<Rightarrow> node \<Rightarrow> 'c Service" where
  "service_node js serviceKey s n =
     (if Key n = serviceKey @ ''/location'' then
        (case unmarshal_location js (Value n) of
           None \<Rightarrow> s
         | Some l \<Rightarrow> s\<lparr>location := \<lparr>Host = Host l, Port = Port l\<rparr>\<rparr>)
      else if Key n = serviceKey @ ''/config'' then
        foldl (config_leaf js (serviceKey @ ''/config'')) s (Nodes n)
      else if Key n = serviceKey @ ''/domain'' then s\<lparr>domain := Value n\<rparr>
      else if Key n = serviceKey @ ''/status'' then
        s\<lparr>status := Some (foldl (status_leaf (serviceKey @ ''/status''))
                           \<lparr>alive = [], current = [], expected = []\<rparr> (Nodes n))\<rparr>
      else s)"

text \<open>Lines 193 to 245: the Service built from the nodes read under its key.\<close>

definition build_service :: "'c json \<Rightarrow> string \<Rightarrow> string \<Rightarrow> string \<Rightarrow> node list \<Rightarrow> 'c Service" where
  "build_service js serviceIndex serviceKey serviceName ns =
     foldl (service_node js serviceKey) (new_Service js serviceIndex serviceKey serviceName) ns"

text \<open>Lines 247 to 257: the comparison with the registered instance and the publication.\<close>

definition service_event :: "string \<Rightarrow> 'c Service \<Rightarrow> event" where
  "service_event serviceName s =
     (if Host (location s) \<noteq> [] \<and> Port (location s) \<noteq> 0
      then Registering_service serviceName (Host (location s)) (Port (location s))
      else Registering_service_without_location serviceName)"

definition publish_service :: "string \<Rightarrow> 'c Service \<Rightarrow> 'c watcher \<Rightarrow> error + 'c watcher" where
  "publish_service serviceName s w =
     (case services w serviceName of
        None \<Rightarrow> Inl NilDereference
      | Some cl \<Rightarrow>
          if \<not> Service_equals (cluster_Get cl (index s)) s
          then Inr (emit (service_event serviceName s)
                      (w\<lparr>services := (services w)(serviceName \<mapsto> cluster_Add cl s)\<rparr>))
          else Inr w)"

text \<open>
  The loop of lines 178 to 259 over the nodes under the service's root. The \<^verbatim>\<open>return\<close>
  of line 203 ends the loop and the registrar; it is reached only once the reads of
  lines 174 and 185 have both succeeded.
\<close>

fun register_instances :: "'c json \<Rightarrow> string \<Rightarrow> string \<Rightarrow> node list \<Rightarrow> 'c watcher \<Rightarrow> error + 'c watcher" where
  "register_instances js action serviceName [] w = Inr w"
| "register_instances js action serviceName (indexNode # rest) w =
     (case getEnvIndexForNode (servicePrefix (config w)) indexNode of
        Inl e \<Rightarrow> Inl e
      | Inr serviceIndex \<Rightarrow>
          (let serviceKey = servicePrefix (config w) @ ''/'' @ serviceName @ ''/'' @ serviceIndex;
               w1 = emit (Get serviceKey True True) w
           in case client w1 serviceKey True True of
                None \<Rightarrow> register_instances js action serviceName rest w1
              | Some r \<Rightarrow>
                  (let w2 = (if services w1 serviceName = None
                             then w1\<lparr>services := (services w1)(serviceName \<mapsto> new_ServiceCluster)\<rparr>
                             else w1)
                   in if action = ''delete'' then
                        Inr (RemoveEnv serviceName (emit (Removing_service serviceName) w2))
                      else
                        (case publish_service serviceName
                                (build_service js serviceIndex serviceKey serviceName (Nodes (Node r))) w2 of
                           Inl e \<Rightarrow> Inl e
                         | Inr w3 \<Rightarrow> register_instances js action serviceName rest w3))))"

text \<open>\<^verbatim>\<open>registerService\<close>, lines 170 to 263.\<close>

definition registerService :: "'c json \<Rightarrow> node \<Rightarrow> string \<Rightarrow> 'c watcher \<Rightarrow> error + 'c watcher" where
  "registerService js n action w =
     (case getEnvForNode (servicePrefix (config w)) n of
        Inl e \<Rightarrow> Inl e
      | Inr serviceName \<Rightarrow>
          (let rootKey = servicePrefix (config w) @ ''/'' @ serviceName;
               w1 = emit (Get rootKey True True) w
           in case client w1 rootKey True True of
                None \<Rightarrow> Inr (emit (Unable_to_get_service serviceName) w1)
              | Some r \<Rightarrow> register_instances js action serviceName (Nodes (Node r)) w1))"

subsection \<open>Dispatching nodes to a registrar\<close>

text \<open>
  \<^verbatim>\<open>loadPrefix\<close> (lines 62 to 70) hands every node under the directory to the registrar,
  and the consumer of \<^verbatim>\<open>watch\<close> (lines 78 to 81) hands it the node of every response
  that is not nil. Neither looks at the key.
\<close>

fun register_all :: "(node \<Rightarrow> string \<Rightarrow> 'c watcher \<Rightarrow> error + 'c watcher) \<Rightarrow> string \<Rightarrow> node list \<Rightarrow> 'c watcher \<Rightarrow> error + 'c watcher" where
  "register_all registerFunc action [] w = Inr w"
| "register_all registerFunc action (n # ns) w =
     (case registerFunc n action w of
        Inl e \<Rightarrow> Inl e
      | Inr w' \<Rightarrow> register_all registerFunc action ns w')"

definition loadPrefix :: "string \<Rightarrow> (node \<Rightarrow> string \<Rightarrow> 'c watcher \<Rightarrow> error + 'c watcher) \<Rightarrow> 'c watcher \<Rightarrow> error + 'c watcher" where
  "loadPrefix etcDir registerFunc w =
     (let w1 = emit (Get etcDir True True) w
      in case client w1 etcDir True True of
           None \<Rightarrow> Inr w1
         | Some r \<Rightarrow> register_all registerFunc (Action r) (Nodes (Node r)) w1)"

definition watch_update :: "(node \<Rightarrow> string \<Rightarrow> 'c watcher \<Rightarrow> error + 'c watcher) \<Rightarrow> response option \<Rightarrow> 'c watcher \<Rightarrow> error + 'c watcher" where
  "watch_update registerFunc resp w =
     (case resp of
        None \<Rightarrow> Inr w
      | Some r \<Rightarrow> registerFunc (Node r) (Action r) w)"

subsection \<open>What a reader of the registries sees\<close>

text \<open>
  Reading a Go map that is nil gives the same answer as reading an empty one, and the
  comparison of Domains looks at the kind and the target only.
\<close>

definition config_get :: "Domain \<Rightarrow> string \<Rightarrow> string option" where
  "config_get d k = (case config_D d of None \<Rightarrow> None | Some m \<Rightarrow> m k)"

definition kind_target :: "Domain \<Rightarrow> string \<times> string" where
  "kind_target d = (typ_D d, value_D d)"

text \<open>
  The indices a cluster holds, and the indices a pass of the service registrar finds in
  etcd: those of the nodes under the service's root whose own read succeeds.
\<close>

definition cluster_indices :: "'c watcher \<Rightarrow> string \<Rightarrow> string set" where
  "cluster_indices w nm = (case services w nm of None \<Rightarrow> {} | Some cl \<Rightarrow> dom (instances cl))"

definition instance_key :: "'c watcher \<Rightarrow> string \<Rightarrow> string \<Rightarrow> string" where
  "instance_key w serviceName i = servicePrefix (config w) @ ''/'' @ serviceName @ ''/'' @ i"

definition readable_index :: "'c watcher \<Rightarrow> string \<Rightarrow> node \<Rightarrow> string option" where
  "readable_index w serviceName nd =
     (case getEnvIndexForNode (servicePrefix (config w)) nd of
        Inl e \<Rightarrow> None
      | Inr i \<Rightarrow> if client w (instance_key w serviceName i) True True = None then None else Some i)"

definition store_indices :: "'c watcher \<Rightarrow> string \<Rightarrow> node list \<Rightarrow> string set" where
  "store_indices w serviceName ns = set (List.map_filter (readable_index w serviceName) ns)"

text \<open>
  The events that publish an entity, and the part of the trace they make. An instance
  is in sync when the cluster holds for its index the Service the registrar builds
  from what etcd answers now (or etcd does not answer for it).
\<close>

fun is_publish :: "event \<Rightarrow> bool" where
  "is_publish (Registered_domain nm t v) = True"
| "is_publish (Registering_service nm h p) = True"
| "is_publish (Registering_service_without_location nm) = True"
| "is_publish e = False"

definition publishes :: "'c watcher \<Rightarrow> event list" where
  "publishes w = filter is_publish (trace w)"

definition in_sync :: "'c json \<Rightarrow> string \<Rightarrow> 'c watcher \<Rightarrow> string \<Rightarrow> bool" where
  "in_sync js nm w i =
     (case client w (instance_key w nm i) True True of
        None \<Rightarrow> True
      | Some r \<Rightarrow>
          (case services w nm of
             None \<Rightarrow> False
           | Some cl \<Rightarrow> instances cl i = Some (build_service js i (instance_key w nm i) nm (Nodes (Node r)))))"

text \<open>The number of separators in a key.\<close>

definition slashes :: "string \<Rightarrow> nat" where
  "slashes s = length (filter (\<lambda>c. c = CHR ''/'') s)"

subsection \<open>The loop of the domain registrar, in closed form\<close>

text \<open>
  What the loop of lines 107 to 119 computes when it does not panic: the fresh Domain is
  filled by the switch, node by node, and every Domain that is registered has the
  settings the configuration nodes name added to its map, the later ones over the
  earlier ones. \<open>writes P ns nm\<close> are the settings the nodes \<open>ns\<close> give to the Domain
  \<open>nm\<close>. The loop is proved equal to this closed form in \<open>walk_nodes_result\<close>.
\<close>

definition fill_node :: "string \<Rightarrow> Domain \<Rightarrow> node \<Rightarrow> Domain" where
  "fill_node domainKey d n =
     (if Key n = domainKey @ ''/type'' then d\<lparr>typ_D := Value n\<rparr>
      else if Key n = domainKey @ ''/value'' then d\<lparr>value_D := Value n\<rparr>
      else d)"

fun writes :: "string \<Rightarrow> node list \<Rightarrow> string \<Rightarrow> (string \<rightharpoonup> string)" where
  "writes P [] nm = Map.empty"
| "writes P (n # ns) nm =
     (if isDomainConfiguration P n \<and> getDomainForNode P n = Inr nm then
        (case getDomainConfiguration P n of
           Inr kv \<Rightarrow> [fst kv \<mapsto> snd kv] ++ writes P ns nm
         | Inl e \<Rightarrow> writes P ns nm)
      else writes P ns nm)"

definition settle :: "(string \<rightharpoonup> string) \<Rightarrow> Domain \<Rightarrow> Domain" where
  "settle W d = d\<lparr>config_D := map_option (\<lambda>m. m ++ W) (config_D d)\<rparr>"

definition settled :: "string \<Rightarrow> node list \<Rightarrow> 'c watcher \<Rightarrow> 'c watcher" where
  "settled P ns w = w\<lparr>domains := (\<lambda>nm. map_option (settle (writes P ns nm)) (domains w nm))\<rparr>"

subsection \<open>Concrete inputs\<close>

text \<open>
  The configuration of the examples, an etcd that answers no read (the server is down,
  or the key is gone), an etcd that answers from a table of directories, and a watcher
  over given registries.
\<close>

definition example_config :: Config where
  "example_config = \<lparr>domainPrefix = ''/domains'', servicePrefix = ''/services''\<rparr>"

definition etcd_down :: "string \<Rightarrow> bool \<Rightarrow> bool \<Rightarrow> response option" where
  "etcd_down key srt recursive = None"

definition etcd_of :: "(string \<times> node) list \<Rightarrow> string \<Rightarrow> bool \<Rightarrow> bool \<Rightarrow> response option" where
  "etcd_of tbl key srt recursive =
     map_option (\<lambda>n. \<lparr>Action = ''get'', Node = n\<rparr>) (map_of tbl key)"

definition example_watcher ::
  "(string \<Rightarrow> bool \<Rightarrow> bool \<Rightarrow> response option) \<Rightarrow> (string \<rightharpoonup> Domain) \<Rightarrow>
   (string \<rightharpoonup> unit ServiceCluster) \<Rightarrow> unit watcher" where
  "example_watcher etcd ds ss =
     \<lparr>client = etcd, config = example_config, domains = ds, services = ss, trace = []\<rparr>"

text \<open>
  A decoder that knows the two location values of the examples and no configuration.
\<close>

definition example_json :: "unit json" where
  "example_json =
     \<lparr>unmarshal_location = (\<lambda>v.
         if v = ''{\"Host\":\"10.0.0.5\",\"Port\":8080}'' then Some \<lparr>Host = ''10.0.0.5'', Port = 8080\<rparr>
         else if v = ''{\"Host\":\"h1\",\"Port\":9000}'' then Some \<lparr>Host = ''h1'', Port = 9000\<rparr>
         else None),
      unmarshal_config = (\<lambda>v. None),
      zero_config = ()\<rparr>"

text \<open>The instance of the service \<^verbatim>\<open>orders\<close> at an index, located at \<^verbatim>\<open>h1:9000\<close>.\<close>

definition example_service :: "string \<Rightarrow> unit Service" where
  "example_service i =
     \<lparr>location = \<lparr>Host = ''h1'', Port = 9000\<rparr>, config_S = (), index = i,
      nodeKey = ''/services/orders/'' @ i, name = ''orders'', domain = [], status = None\<rparr>"

definition orders_cluster :: "string list \<Rightarrow> unit ServiceCluster" where
  "orders_cluster is = \<lparr>instances = map_of (map (\<lambda>i. (i, example_service i)) is)\<rparr>"

text \<open>
  The domain \<^verbatim>\<open>api\<close> in etcd, as a read of its directory that is not recursive returns
  it: without settings, and with the directory of its settings among its children.
  \<open>api_domain\<close> is the Domain the registrar publishes for it.
\<close>

definition api_plain :: node where
  "api_plain =
     EtcdNode ''/domains/api'' []
       [EtcdNode ''/domains/api/type'' ''service'' [],
        EtcdNode ''/domains/api/value'' ''orders'' []]"

definition api_with_settings :: node where
  "api_with_settings =
     EtcdNode ''/domains/api'' []
       [EtcdNode ''/domains/api/config'' [] [],
        EtcdNode ''/domains/api/type'' ''service'' [],
        EtcdNode ''/domains/api/value'' ''orders'' []]"

definition api_domain :: Domain where
  "api_domain = \<lparr>typ_D = ''service'', value_D = ''orders'', config_D = None\<rparr>"

text \<open>A registry of two Domains, the first with two settings.\<close>

definition example_domains :: "string \<rightharpoonup> Domain" where
  "example_domains =
     [''api'' \<mapsto> \<lparr>typ_D = ''service'', value_D = ''orders'',
                  config_D = Some [''timeout'' \<mapsto> ''30'', ''retries'' \<mapsto> ''2'']\<rparr>,
      ''www'' \<mapsto> \<lparr>typ_D = ''uri'', value_D = ''http://example.org'', config_D = None\<rparr>]"

text \<open>
  The service \<^verbatim>\<open>orders\<close> in etcd with its one instance, and the etcd that holds it.
\<close>

definition orders_instance_1 :: node where
  "orders_instance_1 =
     EtcdNode ''/services/orders/1'' []
       [EtcdNode ''/services/orders/1/location'' ''{\"Host\":\"h1\",\"Port\":9000}'' []]"

definition orders_root :: node where
  "orders_root = EtcdNode ''/services/orders'' [] [orders_instance_1]"

definition etcd_orders :: "string \<Rightarrow> bool \<Rightarrow> bool \<Rightarrow> response option" where
  "etcd_orders =
     etcd_of [(''/services/orders'', orders_root), (''/services/orders/1'', orders_instance_1)]"

subsection \<open>The decoder of a location\<close>

text \<open>
  \<^verbatim>\<open>json.Unmarshal([]byte(node.Value), location)\<close> of line 209, into the struct
  \<^verbatim>\<open>location\<close> with its fields \<^verbatim>\<open>Host\<close>, a string, and \<^verbatim>\<open>Port\<close>, an int of 64 bits,
  neither with a tag. The decoder is Go's package \<^verbatim>\<open>encoding/json\<close> and not code of the
  repository; it is modelled after the documentation of the package, with the syntax
  of RFC 8259:
  \<^item> the text is cut into tokens, character by character (\<open>step\<close>, \<open>tokens\<close>): the six
    punctuation marks, strings with their escapes (an escape of four hexadecimal digits gives the UTF-8
    encoding of its code point, two escapes a surrogate pair, a lone surrogate the
    replacement character), numbers and the three literals;
  \<^item> the tokens are read with a stack of the arrays and objects that are open
    (\<open>parse_step\<close>, \<open>parse_tokens\<close>); exactly one value must be read;
  \<^item> an object sets, member by member, the field whose name is the member's key when
    case is ignored (\<open>fold_name\<close>), a later member over an earlier one; members with
    another key are skipped; \<^verbatim>\<open>null\<close> leaves a field, and the whole struct, as it is; a
    value of another type, and a number that is not an integer of 64 bits, is an error;
  \<^item> \<open>None\<close> is a returned error.

  The text is taken to be valid UTF-8 (the package replaces the invalid bytes of a
  string by the replacement character), and the package's limit on the depth of
  nesting (10000 arrays and objects) is left out.
\<close>

datatype token = LBrace | RBrace | LBracket | RBracket | Colon | Comma
  | TString string | TNumber string | TWord string

datatype lex = Idle | InString string "nat option" | InEscape string "nat option"
  | InHex string "nat option" "nat list" | InNumber string | InWord string

definition byte :: "char \<Rightarrow> nat" where
  "byte c = of_char c"

definition in_range :: "char \<Rightarrow> char \<Rightarrow> char \<Rightarrow> bool" where
  "in_range lo hi c = (byte lo \<le> byte c \<and> byte c \<le> byte hi)"

definition is_digit :: "char \<Rightarrow> bool" where
  "is_digit c = in_range CHR ''0'' CHR ''9'' c"

definition hex_value :: "char \<Rightarrow> nat option" where
  "hex_value c =
     (if in_range CHR ''0'' CHR ''9'' c then Some (byte c - 48)
      else if in_range CHR ''a'' CHR ''f'' c then Some (byte c - 87)
      else if in_range CHR ''A'' CHR ''F'' c then Some (byte c - 55)
      else None)"

definition valid_exponent :: "string \<Rightarrow> bool" where
  "valid_exponent s =
     (case s of
        [] \<Rightarrow> True
      | e # r \<Rightarrow>
          (e = CHR ''e'' \<or> e = CHR ''E'') \<and>
          (let ds = (case r of
                       [] \<Rightarrow> []
                     | sg # t \<Rightarrow> if sg = CHR ''+'' \<or> sg = CHR ''-'' then t else r)
           in ds \<noteq> [] \<and> list_all is_digit ds))"

definition valid_number :: "string \<Rightarrow> bool" where
  "valid_number raw =
     (let s = (case raw of [] \<Rightarrow> [] | c # t \<Rightarrow> if c = CHR ''-'' then t else raw);
          ip = takeWhile is_digit s;
          r = dropWhile is_digit s
      in (ip = ''0'' \<or> (ip \<noteq> [] \<and> hd ip \<noteq> CHR ''0'')) \<and>
         (case r of
            [] \<Rightarrow> True
          | c # t \<Rightarrow>
              if c = CHR ''.''
              then takeWhile is_digit t \<noteq> [] \<and> valid_exponent (dropWhile is_digit t)
              else valid_exponent r))"

definition utf8 :: "nat \<Rightarrow> string" where
  "utf8 u =
     (if u < 0x80 then [char_of u]
      else if u < 0x800 then [char_of (0xC0 + u div 64), char_of (0x80 + u mod 64)]
      else if u < 0x10000 then
        [char_of (0xE0 + u div 4096), char_of (0x80 + (u div 64) mod 64), char_of (0x80 + u mod 64)]
      else
        [char_of (0xF0 + u div 262144), char_of (0x80 + (u div 4096) mod 64),
         char_of (0x80 + (u div 64) mod 64), char_of (0x80 + u mod 64)])"

definition replacement :: string where
  "replacement = utf8 0xFFFD"

definition flush :: "nat option \<Rightarrow> string \<Rightarrow> string" where
  "flush pend acc = (case pend of None \<Rightarrow> acc | Some h \<Rightarrow> acc @ replacement)"

definition is_high :: "nat \<Rightarrow> bool" where "is_high u = (0xD800 \<le> u \<and> u < 0xDC00)"
definition is_low :: "nat \<Rightarrow> bool" where "is_low u = (0xDC00 \<le> u \<and> u < 0xE000)"

definition code_unit :: "string \<Rightarrow> nat \<Rightarrow> lex" where
  "code_unit acc u =
     (if is_high u then InString acc (Some u)
      else if is_low u then InString (acc @ replacement) None
      else InString (acc @ utf8 u) None)"

definition start :: "char \<Rightarrow> (token list \<times> lex) option" where
  "start c =
     (if c = CHR '' '' \<or> c = CHR 0x09 \<or> c = CHR 0x0A \<or> c = CHR 0x0D then Some ([], Idle)
      else if c = CHR ''{'' then Some ([LBrace], Idle)
      else if c = CHR ''}'' then Some ([RBrace], Idle)
      else if c = CHR ''['' then Some ([LBracket], Idle)
      else if c = CHR '']'' then Some ([RBracket], Idle)
      else if c = CHR '':'' then Some ([Colon], Idle)
      else if c = CHR '','' then Some ([Comma], Idle)
      else if c = CHR 0x22 then Some ([], InString [] None)
      else if c = CHR ''-'' \<or> is_digit c then Some ([], InNumber [c])
      else if in_range CHR ''a'' CHR ''z'' c then Some ([], InWord [c])
      else None)"

definition after :: "token \<Rightarrow> char \<Rightarrow> (token list \<times> lex) option" where
  "after t c = (case start c of None \<Rightarrow> None | Some (ts, st) \<Rightarrow> Some (t # ts, st))"

fun step :: "lex \<Rightarrow> char \<Rightarrow> (token list \<times> lex) option" where
  "step Idle c = start c"
| "step (InNumber raw) c =
     (if is_digit c \<or> c = CHR ''+'' \<or> c = CHR ''-'' \<or> c = CHR ''.'' \<or> c = CHR ''e'' \<or> c = CHR ''E''
      then Some ([], InNumber (raw @ [c]))
      else if valid_number raw then after (TNumber raw) c
      else None)"
| "step (InWord raw) c =
     (if in_range CHR ''a'' CHR ''z'' c then Some ([], InWord (raw @ [c]))
      else if raw = ''true'' \<or> raw = ''false'' \<or> raw = ''null'' then after (TWord raw) c
      else None)"
| "step (InString acc pend) c =
     (if c = CHR 0x22 then Some ([TString (flush pend acc)], Idle)
      else if c = CHR 0x5C then Some ([], InEscape acc pend)
      else if byte c < 0x20 then None
      else Some ([], InString (flush pend acc @ [c]) None))"
| "step (InEscape acc pend) c =
     (if c = CHR ''u'' then Some ([], InHex acc pend [])
      else if c = CHR 0x22 \<or> c = CHR 0x5C \<or> c = CHR ''/'' then Some ([], InString (flush pend acc @ [c]) None)
      else if c = CHR ''b'' then Some ([], InString (flush pend acc @ [CHR 0x08]) None)
      else if c = CHR ''f'' then Some ([], InString (flush pend acc @ [CHR 0x0C]) None)
      else if c = CHR ''n'' then Some ([], InString (flush pend acc @ [CHR 0x0A]) None)
      else if c = CHR ''r'' then Some ([], InString (flush pend acc @ [CHR 0x0D]) None)
      else if c = CHR ''t'' then Some ([], InString (flush pend acc @ [CHR 0x09]) None)
      else None)"
| "step (InHex acc pend ds) c =
     (case hex_value c of
        None \<Rightarrow> None
      | Some d \<Rightarrow>
          if length ds < 3 then Some ([], InHex acc pend (ds @ [d]))
          else
            (let u = foldl (\<lambda>a x. 16 * a + x) 0 (ds @ [d])
             in case pend of
                  None \<Rightarrow> Some ([], code_unit acc u)
                | Some h \<Rightarrow>
                    if is_low u
                    then Some ([], InString (acc @ utf8 (0x10000 + (h - 0xD800) * 0x400 + (u - 0xDC00))) None)
                    else Some ([], code_unit (acc @ replacement) u)))"

fun finish :: "lex \<Rightarrow> token list option" where
  "finish Idle = Some []"
| "finish (InNumber raw) = (if valid_number raw then Some [TNumber raw] else None)"
| "finish (InWord raw) =
     (if raw = ''true'' \<or> raw = ''false'' \<or> raw = ''null'' then Some [TWord raw] else None)"
| "finish st = None"

fun tokens :: "lex \<Rightarrow> string \<Rightarrow> token list option" where
  "tokens st [] = finish st"
| "tokens st (c # cs) =
     (case step st c of
        None \<Rightarrow> None
      | Some (ts, st') \<Rightarrow> map_option ((@) ts) (tokens st' cs))"

datatype json_value = JNull | JBool bool | JNumber string | JString string
  | JArray "json_value list" | JObject "(string \<times> json_value) list"

datatype frame = FArray "json_value list" | FObject "(string \<times> json_value) list"
  | FMember "(string \<times> json_value) list" string

datatype expect = PValue | PArrayFirst | PObjectFirst | PKey | PColon string | PAfter
  | PDone json_value

fun place :: "json_value \<Rightarrow> frame list \<Rightarrow> (frame list \<times> expect) option" where
  "place v [] = Some ([], PDone v)"
| "place v (FArray xs # fs) = Some (FArray (xs @ [v]) # fs, PAfter)"
| "place v (FMember ms k # fs) = Some (FObject (ms @ [(k, v)]) # fs, PAfter)"
| "place v (FObject ms # fs) = None"

fun open_value :: "token \<Rightarrow> frame list \<Rightarrow> (frame list \<times> expect) option" where
  "open_value LBrace fs = Some (FObject [] # fs, PObjectFirst)"
| "open_value LBracket fs = Some (FArray [] # fs, PArrayFirst)"
| "open_value (TString s) fs = place (JString s) fs"
| "open_value (TNumber r) fs = place (JNumber r) fs"
| "open_value (TWord w) fs =
     place (if w = ''true'' then JBool True else if w = ''false'' then JBool False else JNull) fs"
| "open_value t fs = None"

fun parse_step :: "frame list \<times> expect \<Rightarrow> token \<Rightarrow> (frame list \<times> expect) option" where
  "parse_step (fs, PValue) t = open_value t fs"
| "parse_step (FArray xs # fs, PArrayFirst) t =
     (if t = RBracket then place (JArray xs) fs else open_value t (FArray xs # fs))"
| "parse_step (FObject ms # fs, PObjectFirst) t =
     (case t of
        RBrace \<Rightarrow> place (JObject ms) fs
      | TString k \<Rightarrow> Some (FObject ms # fs, PColon k)
      | _ \<Rightarrow> None)"
| "parse_step (FObject ms # fs, PKey) t =
     (case t of TString k \<Rightarrow> Some (FObject ms # fs, PColon k) | _ \<Rightarrow> None)"
| "parse_step (FObject ms # fs, PColon k) t =
     (if t = Colon then Some (FMember ms k # fs, PValue) else None)"
| "parse_step (FArray xs # fs, PAfter) t =
     (if t = Comma then Some (FArray xs # fs, PValue)
      else if t = RBracket then place (JArray xs) fs
      else None)"
| "parse_step (FObject ms # fs, PAfter) t =
     (if t = Comma then Some (FObject ms # fs, PKey)
      else if t = RBrace then place (JObject ms) fs
      else None)"
| "parse_step s t = None"

fun parse_tokens :: "frame list \<times> expect \<Rightarrow> token list \<Rightarrow> json_value option" where
  "parse_tokens s [] = (case snd s of PDone v \<Rightarrow> Some v | _ \<Rightarrow> None)"
| "parse_tokens s (t # ts) =
     (case parse_step s t of None \<Rightarrow> None | Some s' \<Rightarrow> parse_tokens s' ts)"

definition parse_json :: "string \<Rightarrow> json_value option" where
  "parse_json s =
     (case tokens Idle s of None \<Rightarrow> None | Some ts \<Rightarrow> parse_tokens ([], PValue) ts)"

fun fold_name :: "string \<Rightarrow> string" where
  "fold_name [] = []"
| "fold_name (c # cs) =
     (if in_range CHR ''A'' CHR ''Z'' c then char_of (byte c + 32) # fold_name cs
      else if c = CHR 0xC5 \<and> take 1 cs = [CHR 0xBF] then CHR ''s'' # fold_name (drop 1 cs)
      else if c = CHR 0xE2 \<and> take 2 cs = [CHR 0x84, CHR 0xAA] then CHR ''k'' # fold_name (drop 2 cs)
      else c # fold_name cs)"

definition int_of_number :: "string \<Rightarrow> int option" where
  "int_of_number raw =
     (let neg = (take 1 raw = ''-'');
          ds = (if neg then drop 1 raw else raw);
          m = foldl (\<lambda>a c. 10 * a + (int (byte c) - 48)) 0 ds;
          v = (if neg then - m else m)
      in if ds \<noteq> [] \<and> list_all is_digit ds \<and> - (2 ^ 63) \<le> v \<and> v < 2 ^ 63 then Some v else None)"

definition set_member :: "location \<times> bool \<Rightarrow> string \<times> json_value \<Rightarrow> location \<times> bool" where
  "set_member lo kv =
     (let l = fst lo; ok = snd lo; k = fold_name (fst kv); v = snd kv
      in if k = ''host'' then
           (case v of
              JString s \<Rightarrow> (l\<lparr>Host := s\<rparr>, ok)
            | JNull \<Rightarrow> (l, ok)
            | _ \<Rightarrow> (l, False))
         else if k = ''port'' then
           (case v of
              JNumber r \<Rightarrow> (case int_of_number r of Some p \<Rightarrow> (l\<lparr>Port := p\<rparr>, ok) | None \<Rightarrow> (l, False))
            | JNull \<Rightarrow> (l, ok)
            | _ \<Rightarrow> (l, False))
         else (l, ok))"

definition decode_location :: "string \<Rightarrow> location option" where
  "decode_location s =
     (case parse_json s of
        Some (JObject ms) \<Rightarrow>
          (let lo = foldl set_member (\<lparr>Host = [], Port = 0\<rparr>, True) ms
           in if snd lo then Some (fst lo) else None)
      | Some JNull \<Rightarrow> Some \<lparr>Host = [], Port = 0\<rparr>
      | _ \<Rightarrow> None)"

text \<open>
  The decoders as the watcher has them: the location by \<open>decode_location\<close>, the
  configuration of a service, whose fields the watcher never reads, by a parameter.
\<close>

definition go_json :: "(string \<Rightarrow> 'c option) \<Rightarrow> 'c \<Rightarrow> 'c json" where
  "go_json dc z = \<lparr>unmarshal_location = decode_location, unmarshal_config = dc, zero_config = z\<rparr>"

subsection \<open>The Service built from an instance, in closed form\<close>

text \<open>
  What the switch of lines 207 to 244 has built after the last node: every field holds
  what the last node that sets it has given, and otherwise what the fresh Service had.
  \<open>decoded f k ns\<close> are the values of the nodes of \<open>ns\<close> with the key \<open>k\<close> that \<open>f\<close>
  decodes, in order, and \<open>latest d xs\<close> is the last of them, \<open>d\<close> when there is none.
  The Status is that of the last status node, built from its children alone. The loop
  is proved equal to this closed form in \<open>build_service_closed_form\<close>.
\<close>

definition decoded :: "(string \<Rightarrow> 'a option) \<Rightarrow> string \<Rightarrow> node list \<Rightarrow> 'a list" where
  "decoded f k ns = concat (map (\<lambda>n. case f (Value n) of None \<Rightarrow> [] | Some v \<Rightarrow> [v])
                              (filter (\<lambda>n. Key n = k) ns))"

definition latest :: "'a \<Rightarrow> 'a list \<Rightarrow> 'a" where
  "latest d xs = last (d # xs)"

definition status_of :: "string \<Rightarrow> node list \<Rightarrow> Status" where
  "status_of k subs =
     \<lparr>alive = latest [] (decoded Some (k @ ''/alive'') subs),
      current = latest [] (decoded Some (k @ ''/current'') subs),
      expected = latest [] (decoded Some (k @ ''/expected'') subs)\<rparr>"

definition service_of :: "'c json \<Rightarrow> string \<Rightarrow> string \<Rightarrow> string \<Rightarrow> node list \<Rightarrow> 'c Service" where
  "service_of js i key nm ns =
     \<lparr>location = latest \<lparr>Host = [], Port = 0\<rparr> (decoded (unmarshal_location js) (key @ ''/location'') ns),
      config_S = latest (zero_config js)
                   (decoded (unmarshal_config js) (key @ ''/config/gogeta'')
                      (concat (map Nodes (filter (\<lambda>n. Key n = key @ ''/config'') ns)))),
      index = i,
      nodeKey = key,
      name = nm,
      domain = latest [] (decoded Some (key @ ''/domain'') ns),
      status = latest None (map (\<lambda>n. Some (status_of (key @ ''/status'') (Nodes n)))
                             (filter (\<lambda>n. Key n = key @ ''/status'') ns))\<rparr>"


text \<open>
  An instance of \<^verbatim>\<open>orders\<close> whose location is cut short, with a configuration, a domain
  and a status, and the etcd that holds it.
\<close>

definition undecodable_instance :: node where
  "undecodable_instance =
     EtcdNode ''/services/orders/1'' []
       [EtcdNode ''/services/orders/1/config'' []
          [EtcdNode ''/services/orders/1/config/gogeta'' ''{}'' []],
        EtcdNode ''/services/orders/1/domain'' ''api'' [],
        EtcdNode ''/services/orders/1/location'' ''{Host:'' [],
        EtcdNode ''/services/orders/1/status'' []
          [EtcdNode ''/services/orders/1/status/alive'' ''true'' [],
           EtcdNode ''/services/orders/1/status/current'' ''1'' []]]"

definition etcd_undecodable :: "string \<Rightarrow> bool \<Rightarrow> bool \<Rightarrow> response option" where
  "etcd_undecodable =
     etcd_of [(''/services/orders'', EtcdNode ''/services/orders'' [] [undecodable_instance]),
              (''/services/orders/1'', undecodable_instance)]"

section \<open>Lemmas\<close>

subsection \<open>Strings\<close>

lemma Split_not_Nil: "Split s sep \<noteq> []"
  by (induction s) (auto split: list.splits)

lemma index_at_Split_0: "index_at (Split s sep) 0 = Inr (hd (Split s sep))"
  using Split_not_Nil [of s sep] by (cases "Split s sep") (auto simp: index_at_def)

lemma starts_with_decompose: "starts_with lit s \<Longrightarrow> s = lit @ drop (length lit) s"
  unfolding starts_with_def by (metis append_take_drop_id)

lemma slashes_append [simp]: "slashes (a @ b) = slashes a + slashes b"
  by (simp add: slashes_def)

lemma slashes_Nil [simp]: "slashes [] = 0"
  by (simp add: slashes_def)

lemma slashes_Cons [simp]: "slashes (c # s) = (if c = CHR ''/'' then 1 else 0) + slashes s"
  by (simp add: slashes_def)

lemma slashes_none: "CHR ''/'' \<notin> set s \<Longrightarrow> slashes s = 0"
  by (induction s) auto

lemma leftmost_Some:
  "leftmost rest lit s = Some r \<Longrightarrow> \<exists>a t. s = a @ lit @ t \<and> rest t = Some r"
proof (induction s)
  case Nil
  then show ?case by (auto split: if_splits)
next
  case (Cons c cs)
  show ?case
  proof (cases "starts_with lit (c # cs) \<and> rest (drop (length lit) (c # cs)) = Some r")
    case True
    then have "c # cs = [] @ lit @ drop (length lit) (c # cs)"
      using starts_with_decompose by fastforce
    with True show ?thesis by blast
  next
    case False
    with Cons.prems have "leftmost rest lit cs = Some r"
      by (auto split: if_splits option.splits)
    from Cons.IH [OF this] obtain a t where "cs = a @ lit @ t" "rest t = Some r" by blast
    then have "c # cs = (c # a) @ lit @ t" by simp
    with \<open>rest t = Some r\<close> show ?thesis by blast
  qed
qed

lemma greedy_split_Some:
  "greedy_split lit s = Some (x, y) \<Longrightarrow> s = x @ lit @ y \<and> y \<noteq> []"
proof (induction s arbitrary: x y)
  case Nil
  then show ?case by simp
next
  case (Cons c cs)
  show ?case
  proof (cases "greedy_split lit cs")
    case None
    with Cons.prems have sw: "starts_with lit (c # cs)" and y: "y = drop (length lit) (c # cs)"
      and x: "x = []" and ne: "drop (length lit) (c # cs) \<noteq> []"
      by (auto split: if_splits)
    from starts_with_decompose [OF sw] x y ne show ?thesis by simp
  next
    case (Some p)
    obtain a b where p: "p = (a, b)" by (cases p)
    with Cons.prems Some have "x = c # a" "y = b" by simp_all
    with Cons.IH [of a b] Some p show ?thesis by simp
  qed
qed

text \<open>
  A key the settings expression matches has three separators after the prefix; the key of
  a child of a domain's root has two.
\<close>

lemma submatch_config_slashes:
  assumes "submatch_config P key = Some g"
  shows "slashes P + 3 \<le> slashes key"
proof -
  obtain g1 g2 where g: "g = (g1, g2)" by (cases g)
  from assms have "leftmost (\<lambda>t. greedy_split ''/config/'' (dot_star t)) (P @ ''/'') key = Some (g1, g2)"
    by (simp add: submatch_config_def g)
  from leftmost_Some [OF this]
  obtain a t where key: "key = a @ (P @ ''/'') @ t"
    and t: "greedy_split ''/config/'' (dot_star t) = Some (g1, g2)" by blast
  from greedy_split_Some [OF t] have "dot_star t = g1 @ ''/config/'' @ g2" by simp
  moreover have "t = dot_star t @ dropWhile (\<lambda>c. c \<noteq> CHR 0x0A) t"
    by (simp add: dot_star_def)
  ultimately have "t = g1 @ ''/config/'' @ g2 @ dropWhile (\<lambda>c. c \<noteq> CHR 0x0A) t"
    by simp
  then have "slashes t = slashes (g1 @ ''/config/'' @ g2 @ dropWhile (\<lambda>c. c \<noteq> CHR 0x0A) t)"
    by (rule arg_cong)
  then have "slashes t = slashes g1 + slashes ''/config/'' + slashes g2
      + slashes (dropWhile (\<lambda>c. c \<noteq> CHR 0x0A) t)"
    by (simp only: slashes_append add.assoc)
  then show ?thesis unfolding key by simp
qed

lemma child_is_no_settings_leaf:
  assumes "CHR ''/'' \<notin> set nm" "CHR ''/'' \<notin> set seg"
  shows "submatch_config P (P @ ''/'' @ nm @ ''/'' @ seg) = None"
proof (cases "submatch_config P (P @ ''/'' @ nm @ ''/'' @ seg)")
  case None
  then show ?thesis .
next
  case (Some g)
  from submatch_config_slashes [OF Some] assms
  show ?thesis by (simp add: slashes_none)
qed

subsection \<open>The watcher's fields\<close>

lemma emit_fields [simp]:
  "services (emit e w) = services w" "trace (emit e w) = trace w @ [e]"
  "client (emit e w) = client w" "config (emit e w) = config w" "domains (emit e w) = domains w"
  by (simp_all add: emit_def)

subsection \<open>The loop of the domain registrar\<close>

lemma settle_empty [simp]: "settle Map.empty = (\<lambda>d. d)"
  by (rule ext) (simp add: settle_def option.map_ident)

lemma map_add_twice: "(m ++ W) ++ W = m ++ (W :: 'a \<rightharpoonup> 'b)"
  by (rule ext) (simp add: map_add_def split: option.splits)

lemma settled_Nil [simp]: "settled P [] w = w"
  by (simp add: settled_def option.map_ident)

lemma settle_settle [simp]: "settle W (settle W d) = settle W d"
  by (cases "config_D d") (simp_all add: settle_def map_add_twice)

lemma kind_target_settle [simp]: "kind_target (settle W d) = kind_target d"
  by (simp add: settle_def kind_target_def)

lemma walk_node_result:
  assumes "walk_node key n (d0, w) = Inr (d, w')"
  shows "d = fill_node key d0 n \<and> w' = settled (domainPrefix (config w)) [n] w"
proof (cases "isDomainConfiguration (domainPrefix (config w)) n")
  case False
  with assms show ?thesis
    by (auto simp: walk_node_def fill_node_def Let_def settled_def option.map_ident)
next
  case True
  let ?P = "domainPrefix (config w)"
  from assms True obtain kv nm dm m where
    kv: "getDomainConfiguration ?P n = Inr kv" and nm: "getDomainForNode ?P n = Inr nm"
    and dm: "domains w nm = Some dm" and m: "config_D dm = Some m"
    and d: "d = fill_node key d0 n"
    and w': "w' = w\<lparr>domains := (domains w)(nm \<mapsto> dm\<lparr>config_D := Some (m(fst kv \<mapsto> snd kv))\<rparr>)\<rparr>"
    by (auto simp: walk_node_def fill_node_def Let_def split: sum.splits option.splits if_splits)
  have "(domains w)(nm \<mapsto> dm\<lparr>config_D := Some (m(fst kv \<mapsto> snd kv))\<rparr>) =
        (\<lambda>x. map_option (settle (writes ?P [n] x)) (domains w x))"
  proof
    fix x
    show "((domains w)(nm \<mapsto> dm\<lparr>config_D := Some (m(fst kv \<mapsto> snd kv))\<rparr>)) x =
          map_option (settle (writes ?P [n] x)) (domains w x)"
      using True kv nm dm m by (cases "x = nm") (simp_all add: settle_def option.map_ident)
  qed
  with d w' show ?thesis by (simp add: settled_def)
qed

lemma writes_Cons_add:
  "writes P (n # ns) nm = writes P [n] nm ++ writes P ns nm"
  by (simp split: sum.splits)

lemma settle_add: "settle (W1 ++ W2) = settle W2 \<circ> settle W1"
proof
  fix d show "settle (W1 ++ W2) d = (settle W2 \<circ> settle W1) d"
    by (cases "config_D d") (simp_all add: settle_def)
qed

lemma settled_Cons: "settled P (n # ns) w = settled P ns (settled P [n] w)"
proof -
  have "map_option (settle (writes P (n # ns) nm)) x =
        map_option (settle (writes P ns nm)) (map_option (settle (writes P [n] nm)) x)" for nm x
    by (simp only: writes_Cons_add [of P n ns nm] settle_add option.map_comp)
  then show ?thesis by (simp add: settled_def del: writes.simps)
qed

lemma config_settled [simp]: "config (settled P ns w) = config w"
  by (simp add: settled_def)

lemma settled_other_fields [simp]:
  "services (settled P ns w) = services w" "trace (settled P ns w) = trace w"
  "client (settled P ns w) = client w"
  by (simp_all add: settled_def)

text \<open>The loop, when it does not panic, computes the closed form.\<close>

lemma walk_nodes_result:
  "walk_nodes key ns (d0, w) = Inr (d, w') \<Longrightarrow>
     d = foldl (fill_node key) d0 ns \<and> w' = settled (domainPrefix (config w)) ns w"
proof (induction ns arbitrary: d0 w)
  case Nil
  then show ?case by simp
next
  case (Cons n ns)
  from Cons.prems obtain d1 w1 where
    step: "walk_node key n (d0, w) = Inr (d1, w1)" and rest: "walk_nodes key ns (d1, w1) = Inr (d, w')"
    by (auto split: sum.splits)
  from walk_node_result [OF step] have d1: "d1 = fill_node key d0 n"
    and w1: "w1 = settled (domainPrefix (config w)) [n] w" by simp_all
  from Cons.IH [OF rest] d1 w1 show ?case
    by (simp add: settled_Cons [of _ n ns])
qed

lemma domains_settled:
  "domains (settled P ns w) nm = map_option (settle (writes P ns nm)) (domains w nm)"
  by (simp add: settled_def)

lemma kind_target_settled:
  "map_option kind_target (domains (settled P ns w) nm) = map_option kind_target (domains w nm)"
  by (simp add: domains_settled option.map_comp comp_def)

lemma Domain_equals_kind_target:
  "Domain_equals d x = (map_option kind_target x = Some (kind_target d))"
  by (cases x) (auto simp: Domain_equals_def kind_target_def)

lemma Domain_equals_settled:
  "Domain_equals d (domains (settled P ns w) nm) = Domain_equals d (domains w nm)"
  by (simp only: Domain_equals_kind_target kind_target_settled)

lemma removeDomainConfiguration_frame:
  assumes m: "submatch_config (domainPrefix (config w)) (Key n) = Some (d, g)"
      and r: "removeDomainConfiguration n w = Inr w'"
  shows "services w' = services w
        \<and> (\<forall>d'. d' \<noteq> d \<longrightarrow> domains w' d' = domains w d')
        \<and> domains w' d \<noteq> None
        \<and> map_option kind_target (domains w' d) = map_option kind_target (domains w d)
        \<and> (\<forall>k'. k' \<noteq> hd (Split g CHR ''/'') \<longrightarrow>
              map_option (\<lambda>x. config_get x k') (domains w' d) =
              map_option (\<lambda>x. config_get x k') (domains w d))"
proof (cases "domains w d")
  case None
  with m r show ?thesis by (simp add: removeDomainConfiguration_def)
next
  case (Some x)
  let ?k = "hd (Split g CHR ''/'')"
  from m r Some have w': "w' = w\<lparr>domains := (domains w)
      (d \<mapsto> x\<lparr>config_D := map_option (\<lambda>m. m(?k := None)) (config_D x)\<rparr>)\<rparr>"
    by (simp add: removeDomainConfiguration_def index_at_Split_0)
  have "\<forall>k'. k' \<noteq> ?k \<longrightarrow>
      config_get (x\<lparr>config_D := map_option (\<lambda>m. m(?k := None)) (config_D x)\<rparr>) k' = config_get x k'"
    by (cases "config_D x") (simp_all add: config_get_def)
  then show ?thesis using Some by (simp add: w' kind_target_def)
qed

lemma config_fill_node [simp]: "config_D (fill_node key d n) = config_D d"
  by (simp add: fill_node_def)

lemma config_fill_nodes [simp]: "config_D (foldl (fill_node key) d ns) = config_D d"
  by (induction ns arbitrary: d) simp_all

lemma settle_nil_config: "config_D d = None \<Longrightarrow> settle W d = d"
  by (simp add: settle_def)

lemma walk_node_Inl:
  "walk_node key n (d0, w) = Inl e \<Longrightarrow> isDomainConfiguration (domainPrefix (config w)) n"
  by (auto simp: walk_node_def Let_def split: if_splits)

lemma walk_nodes_Inl:
  "walk_nodes key ns (d0, w) = Inl e \<Longrightarrow>
     \<exists>x\<in>set ns. isDomainConfiguration (domainPrefix (config w)) x"
proof (induction ns arbitrary: d0 w)
  case Nil
  then show ?case by simp
next
  case (Cons n ns)
  show ?case
  proof (cases "walk_node key n (d0, w)")
    case (Inl e')
    from walk_node_Inl [OF this] show ?thesis by simp
  next
    case (Inr dw)
    obtain d1 w1 where dw: "dw = (d1, w1)" by (cases dw)
    from walk_node_result [OF Inr [unfolded dw]] have "config w1 = config w" by simp
    moreover from Cons.prems Inr dw have "walk_nodes key ns (d1, w1) = Inl e" by simp
    ultimately show ?thesis using Cons.IH by fastforce
  qed
qed

lemma walk_nodes_Inr_config:
  "walk_nodes key ns (d0, w) = Inr dw \<Longrightarrow>
     \<forall>x\<in>set ns. isDomainConfiguration (domainPrefix (config w)) x \<longrightarrow>
        submatch_config (domainPrefix (config w)) (Key x) \<noteq> None"
proof (induction ns arbitrary: d0 w)
  case Nil
  then show ?case by simp
next
  case (Cons n ns)
  from Cons.prems obtain d1 w1 where
    step: "walk_node key n (d0, w) = Inr (d1, w1)" and rest: "walk_nodes key ns (d1, w1) = Inr dw"
    by (auto split: sum.splits)
  from walk_node_result [OF step] have c: "config w1 = config w" by simp
  from step have "isDomainConfiguration (domainPrefix (config w)) n \<longrightarrow>
      submatch_config (domainPrefix (config w)) (Key n) \<noteq> None"
    by (auto simp: walk_node_def getDomainConfiguration_def Let_def split: if_splits option.splits)
  with Cons.IH [OF rest] c show ?case by simp
qed

lemma removeDomainConfiguration_again:
  assumes "removeDomainConfiguration n w = Inr w1" "config v = config w" "domains v = domains w1"
  shows "\<exists>v1. removeDomainConfiguration n v = Inr v1 \<and> domains v1 = domains w1
              \<and> services v1 = services v \<and> trace v1 = trace v \<and> services w1 = services w"
proof (cases "submatch_config (domainPrefix (config w)) (Key n)")
  case None
  with assms show ?thesis by (simp add: removeDomainConfiguration_def)
next
  case (Some g)
  obtain g1 g2 where g: "g = (g1, g2)" by (cases g)
  let ?k = "hd (Split g2 CHR ''/'')"
  from assms(1) Some g obtain d where d: "domains w g1 = Some d"
    and w1: "w1 = w\<lparr>domains := (domains w)(g1 \<mapsto> d\<lparr>config_D := map_option (\<lambda>m. m(?k := None)) (config_D d)\<rparr>)\<rparr>"
    by (auto simp: removeDomainConfiguration_def index_at_Split_0 split: option.splits)
  let ?d1 = "d\<lparr>config_D := map_option (\<lambda>m. m(?k := None)) (config_D d)\<rparr>"
  have twice: "?d1\<lparr>config_D := map_option (\<lambda>m. m(?k := None)) (config_D ?d1)\<rparr> = ?d1"
    by (cases "config_D d") simp_all
  have "domains v g1 = Some ?d1" using assms(3) w1 by simp
  then have "removeDomainConfiguration n v = Inr (v\<lparr>domains := (domains v)(g1 \<mapsto> ?d1)\<rparr>)"
    using Some g assms(2) twice by (simp add: removeDomainConfiguration_def index_at_Split_0)
  moreover have "(domains v)(g1 \<mapsto> ?d1) = domains w1" using assms(3) w1 by simp
  ultimately show ?thesis using w1 by simp
qed

subsection \<open>Evaluating the decoders on the examples\<close>

lemmas eval_keys = getEnvForNode_def getEnvIndexForNode_def getDomainForNode_def submatch_rest_def
  starts_with_def dot_star_def index_at_def

lemma api_plain_no_configuration:
  "\<forall>x\<in>set (Nodes api_plain). \<not> isDomainConfiguration ''/domains'' x"
  by (simp add: api_plain_def isDomainConfiguration_def match_config_def starts_with_def
        dot_star_def contains_def)

lemma api_first_delivery:
  "registerDomain (EtcdNode ''/domains/api/type'' ''service'' []) ''set''
     (example_watcher (etcd_of [(''/domains/api'', api_plain)]) Map.empty Map.empty) =
   Inr ((example_watcher (etcd_of [(''/domains/api'', api_plain)]) [''api'' \<mapsto> api_domain] Map.empty)
         \<lparr>trace := [Get ''/domains/api'' True False, Registered_domain ''api'' ''service'' ''orders'']\<rparr>)"
  using api_plain_no_configuration
  by (simp add: registerDomain_def eval_keys example_watcher_def example_config_def etcd_of_def
        api_plain_def walk_node_def Let_def new_Domain_def api_domain_def emit_def
        publish_domain_def Domain_equals_def)

subsection \<open>Building a Service\<close>

lemma location_config_leaves:
  "location (foldl (config_leaf js k) s xs) = location s"
  by (induction xs arbitrary: s) (simp_all add: config_leaf_def split: option.splits)

lemma location_service_node:
  "location (service_node js key s n) =
     (if Key n = key @ ''/location'' then
        (case unmarshal_location js (Value n) of None \<Rightarrow> location s | Some l \<Rightarrow> l)
      else location s)"
  by (simp add: service_node_def location_config_leaves split: option.splits)

lemma build_service_snoc:
  "build_service js i key nm (ns @ [n]) = service_node js key (build_service js i key nm ns) n"
  by (simp add: build_service_def)

lemma location_build_service:
  assumes "\<forall>n\<in>set ns. Key n = key @ ''/location'' \<longrightarrow> unmarshal_location js (Value n) = Some l"
  shows "location (build_service js i key nm ns) =
           (if \<exists>n\<in>set ns. Key n = key @ ''/location'' then l else \<lparr>Host = [], Port = 0\<rparr>)"
  using assms
proof (induction ns rule: rev_induct)
  case Nil
  then show ?case by (simp add: build_service_def new_Service_def)
next
  case (snoc n ns)
  then show ?case by (auto simp: build_service_snoc location_service_node)
qed

lemma index_config_leaves: "index (foldl (config_leaf js k) s xs) = index s"
  by (induction xs arbitrary: s) (simp_all add: config_leaf_def split: option.splits)

lemma index_service_node: "index (service_node js key s n) = index s"
  by (simp add: service_node_def index_config_leaves split: option.splits)

lemma index_build_service [simp]: "index (build_service js i key nm ns) = i"
  by (induction ns rule: rev_induct)
     (simp_all add: build_service_snoc index_service_node, simp add: build_service_def new_Service_def)


subsection \<open>The loop of the service registrar\<close>

lemma publish_service_result:
  assumes "publish_service nm s w = Inr w'"
  shows "cluster_indices w' nm = insert (index s) (cluster_indices w nm)
         \<and> client w' = client w \<and> config w' = config w \<and> domains w' = domains w
         \<and> (\<forall>x. x \<noteq> nm \<longrightarrow> services w' x = services w x)"
proof (cases "services w nm")
  case None
  with assms show ?thesis by (simp add: publish_service_def)
next
  case (Some cl)
  show ?thesis
  proof (cases "Service_equals (cluster_Get cl (index s)) s")
    case True
    then have "instances cl (index s) = Some s"
      by (auto simp: Service_equals_def cluster_Get_def split: option.splits)
    with assms Some True show ?thesis
      by (auto simp: publish_service_def cluster_indices_def)
  next
    case False
    with assms Some show ?thesis
      by (auto simp: publish_service_def cluster_indices_def cluster_Add_def)
  qed
qed

lemma store_indices_Cons:
  "store_indices w nm (nd # ns) =
     (case readable_index w nm nd of None \<Rightarrow> {} | Some i \<Rightarrow> {i}) \<union> store_indices w nm ns"
  by (simp add: store_indices_def List.map_filter_simps split: option.splits)

lemma store_indices_cong:
  "client w' = client w \<Longrightarrow> config w' = config w \<Longrightarrow> store_indices w' nm ns = store_indices w nm ns"
proof -
  assume "client w' = client w" "config w' = config w"
  then have "readable_index w' nm = readable_index w nm"
    by (intro ext) (simp add: readable_index_def instance_key_def split: sum.splits)
  then show ?thesis by (simp add: store_indices_def)
qed

lemma store_indices_emit [simp]: "store_indices (emit e w) nm ns = store_indices w nm ns"
  by (rule store_indices_cong) simp_all

lemma cluster_indices_emit [simp]: "cluster_indices (emit e w) nm = cluster_indices w nm"
  by (simp add: cluster_indices_def)

lemma register_instances_indices:
  "register_instances js action nm ns w = Inr w' \<Longrightarrow> action \<noteq> ''delete'' \<Longrightarrow>
     cluster_indices w' nm = cluster_indices w nm \<union> store_indices w nm ns
     \<and> client w' = client w \<and> config w' = config w \<and> domains w' = domains w
     \<and> (\<forall>x. x \<noteq> nm \<longrightarrow> services w' x = services w x)"
proof (induction ns arbitrary: w)
  case Nil
  then show ?case by (simp add: store_indices_def List.map_filter_simps)
next
  case (Cons nd ns)
  let ?P = "servicePrefix (config w)"
  from Cons.prems obtain i where i: "getEnvIndexForNode ?P nd = Inr i"
    by (auto split: sum.splits)
  let ?key = "?P @ ''/'' @ nm @ ''/'' @ i"
  let ?w1 = "emit (Get ?key True True) w"
  show ?case
  proof (cases "client w ?key True True")
    case None
    with Cons.prems i have "register_instances js action nm ns ?w1 = Inr w'"
      by (simp add: Let_def)
    from Cons.IH [OF this Cons.prems(2)] i None show ?thesis
      by (simp add: store_indices_Cons readable_index_def instance_key_def)
  next
    case (Some r)
    let ?w2 = "if services ?w1 nm = None
               then ?w1\<lparr>services := (services ?w1)(nm \<mapsto> new_ServiceCluster)\<rparr> else ?w1"
    let ?s = "build_service js i ?key nm (Nodes (Node r))"
    from Cons.prems i Some obtain w3 where
      pub: "publish_service nm ?s ?w2 = Inr w3" and rest: "register_instances js action nm ns w3 = Inr w'"
      by (auto simp: Let_def split: sum.splits if_splits)
    have w2: "cluster_indices ?w2 nm = cluster_indices w nm" "client ?w2 = client w"
      "config ?w2 = config w" "domains ?w2 = domains w" "\<forall>x. x \<noteq> nm \<longrightarrow> services ?w2 x = services w x"
      by (auto simp: cluster_indices_def new_ServiceCluster_def)
    from publish_service_result [OF pub] w2
    have w3: "cluster_indices w3 nm = insert i (cluster_indices w nm)" "client w3 = client w"
      "config w3 = config w" "domains w3 = domains w" "\<forall>x. x \<noteq> nm \<longrightarrow> services w3 x = services w x"
      by simp_all
    have "store_indices w3 nm ns = store_indices w nm ns"
      using w3 by (intro store_indices_cong) simp_all
    with Cons.IH [OF rest Cons.prems(2)] w3 i Some show ?thesis
      by (simp add: store_indices_Cons readable_index_def instance_key_def)
  qed
qed

lemma publishes_emit [simp]:
  "publishes (emit e w) = publishes w @ (if is_publish e then [e] else [])"
  by (simp add: publishes_def)

lemma publishes_fields [simp]:
  "publishes (w\<lparr>services := s\<rparr>) = publishes w" "publishes (w\<lparr>domains := d\<rparr>) = publishes w"
  by (simp_all add: publishes_def)

lemma in_sync_emit [simp]: "in_sync js nm (emit e w) i = in_sync js nm w i"
  by (simp add: in_sync_def instance_key_def split: option.splits)

lemma publish_service_in_sync:
  assumes pub: "publish_service nm s w = Inr w'"
  shows "\<exists>cl. services w' nm = Some cl \<and> instances cl (index s) = Some s
              \<and> (\<forall>j. j \<noteq> index s \<longrightarrow> (\<exists>cl0. services w nm = Some cl0 \<and> instances cl j = instances cl0 j))"
proof (cases "services w nm")
  case None
  with pub show ?thesis by (simp add: publish_service_def)
next
  case (Some cl)
  show ?thesis
  proof (cases "Service_equals (cluster_Get cl (index s)) s")
    case True
    then have "instances cl (index s) = Some s"
      by (auto simp: Service_equals_def cluster_Get_def split: option.splits)
    with pub Some True show ?thesis by (auto simp: publish_service_def)
  next
    case False
    with pub Some show ?thesis by (auto simp: publish_service_def cluster_Add_def)
  qed
qed

lemma register_instances_Cons:
  assumes "action \<noteq> ''delete''"
      and "getEnvIndexForNode (servicePrefix (config w)) nd = Inr i"
  shows "register_instances js action nm (nd # ns) w =
          (case client w (instance_key w nm i) True True of
             None \<Rightarrow> register_instances js action nm ns (emit (Get (instance_key w nm i) True True) w)
           | Some r \<Rightarrow>
               (case publish_service nm (build_service js i (instance_key w nm i) nm (Nodes (Node r)))
                       (if services w nm = None
                        then (emit (Get (instance_key w nm i) True True) w)
                               \<lparr>services := (services w)(nm \<mapsto> new_ServiceCluster)\<rparr>
                        else emit (Get (instance_key w nm i) True True) w) of
                  Inl e \<Rightarrow> Inl e
                | Inr w3 \<Rightarrow> register_instances js action nm ns w3))"
  using assms by (auto simp: Let_def instance_key_def split: option.splits)

lemma register_instances_in_sync:
  "register_instances js action nm ns w = Inr w' \<Longrightarrow> action \<noteq> ''delete'' \<Longrightarrow>
     (\<forall>j. in_sync js nm w j \<longrightarrow> in_sync js nm w' j)
     \<and> (\<forall>nd\<in>set ns. \<exists>i. getEnvIndexForNode (servicePrefix (config w)) nd = Inr i \<and> in_sync js nm w' i)"
proof (induction ns arbitrary: w)
  case Nil
  then show ?case by simp
next
  case (Cons nd ns)
  from Cons.prems obtain i where i: "getEnvIndexForNode (servicePrefix (config w)) nd = Inr i"
    by (auto split: sum.splits)
  let ?key = "instance_key w nm i"
  let ?w1 = "emit (Get ?key True True) w"
  note step = register_instances_Cons [OF Cons.prems(2) i, of js nm ns]
  show ?case
  proof (cases "client w ?key True True")
    case None
    with step Cons.prems have rest: "register_instances js action nm ns ?w1 = Inr w'" by simp
    from register_instances_indices [OF rest Cons.prems(2)]
    have same: "client w' = client w" "config w' = config w" by simp_all
    from None same have "in_sync js nm w' i" by (simp add: in_sync_def instance_key_def)
    with Cons.IH [OF rest Cons.prems(2)] i show ?thesis by auto
  next
    case (Some r)
    let ?s = "build_service js i ?key nm (Nodes (Node r))"
    let ?w2 = "if services w nm = None
               then ?w1\<lparr>services := (services w)(nm \<mapsto> new_ServiceCluster)\<rparr> else ?w1"
    from step Some Cons.prems obtain w3 where
      pub: "publish_service nm ?s ?w2 = Inr w3" and rest: "register_instances js action nm ns w3 = Inr w'"
      by (auto split: sum.splits)
    from publish_service_result [OF pub]
    have w3: "client w3 = client w" "config w3 = config w" by (simp_all split: if_splits)
    from publish_service_in_sync [OF pub] obtain cl where
      cl: "services w3 nm = Some cl" "instances cl i = Some ?s"
      and other: "\<forall>j. j \<noteq> i \<longrightarrow> (\<exists>cl0. services ?w2 nm = Some cl0 \<and> instances cl j = instances cl0 j)"
      by auto
    have i3: "in_sync js nm w3 i"
      using Some cl w3 by (simp add: in_sync_def instance_key_def)
    have j3: "in_sync js nm w3 j" if "in_sync js nm w j" for j
    proof (cases "j = i")
      case True
      with i3 show ?thesis by simp
    next
      case False
      with other obtain cl0 where cl0: "services ?w2 nm = Some cl0" "instances cl j = instances cl0 j"
        by blast
      show ?thesis
      proof (cases "client w (instance_key w nm j) True True")
        case None
        with w3 show ?thesis by (simp add: in_sync_def instance_key_def)
      next
        case (Some rj)
        with that obtain c where c: "services w nm = Some c"
          "instances c j = Some (build_service js j (instance_key w nm j) nm (Nodes (Node rj)))"
          by (auto simp: in_sync_def split: option.splits)
        with cl0 have "cl0 = c" by simp
        with Some c cl cl0 w3 show ?thesis by (simp add: in_sync_def instance_key_def)
      qed
    qed
    from Cons.IH [OF rest Cons.prems(2)] i i3 j3 w3
    show ?thesis by auto
  qed
qed

lemma register_instances_noop:
  "action \<noteq> ''delete'' \<Longrightarrow>
   \<forall>nd\<in>set ns. \<exists>i. getEnvIndexForNode (servicePrefix (config w)) nd = Inr i \<and> in_sync js nm w i \<Longrightarrow>
   \<exists>w'. register_instances js action nm ns w = Inr w' \<and> services w' = services w
        \<and> domains w' = domains w \<and> publishes w' = publishes w"
proof (induction ns arbitrary: w)
  case Nil
  then show ?case by simp
next
  case (Cons nd ns)
  from Cons.prems obtain i where i: "getEnvIndexForNode (servicePrefix (config w)) nd = Inr i"
    and sync: "in_sync js nm w i" by auto
  let ?key = "instance_key w nm i"
  let ?w1 = "emit (Get ?key True True) w"
  note step = register_instances_Cons [OF Cons.prems(1) i, of js nm ns]
  have rest: "\<forall>nd\<in>set ns. \<exists>i. getEnvIndexForNode (servicePrefix (config ?w1)) nd = Inr i \<and> in_sync js nm ?w1 i"
    using Cons.prems(2) by simp
  from Cons.IH [OF Cons.prems(1) rest] obtain w' where
    w': "register_instances js action nm ns ?w1 = Inr w'" "services w' = services w"
       "domains w' = domains w" "publishes w' = publishes w"
    by auto
  show ?case
  proof (cases "client w ?key True True")
    case None
    with step w' show ?thesis by simp
  next
    case (Some r)
    with sync obtain cl where cl: "services w nm = Some cl"
      "instances cl i = Some (build_service js i ?key nm (Nodes (Node r)))"
      by (auto simp: in_sync_def split: option.splits)
    then have "publish_service nm (build_service js i ?key nm (Nodes (Node r))) ?w1 = Inr ?w1"
      by (simp add: publish_service_def Service_equals_def cluster_Get_def)
    with step Some cl w' show ?thesis by simp
  qed
qed

lemma register_instances_delete_again:
  "register_instances js ''delete'' nm ns w = Inr w1 \<Longrightarrow>
   client v = client w \<Longrightarrow> config v = config w \<Longrightarrow>
   \<exists>v1. register_instances js ''delete'' nm ns v = Inr v1
        \<and> domains w1 = domains w \<and> domains v1 = domains v \<and> publishes v1 = publishes v
        \<and> ((services w1 = (services w)(nm := None) \<and> services v1 = (services v)(nm := None))
           \<or> (services w1 = services w \<and> services v1 = services v))"
proof (induction ns arbitrary: w v)
  case Nil
  then show ?case by simp
next
  case (Cons nd ns)
  from Cons.prems obtain i where i: "getEnvIndexForNode (servicePrefix (config w)) nd = Inr i"
    by (auto split: sum.splits)
  let ?key = "servicePrefix (config w) @ ''/'' @ nm @ ''/'' @ i"
  show ?case
  proof (cases "client w ?key True True")
    case None
    with Cons.prems i have "register_instances js ''delete'' nm ns (emit (Get ?key True True) w) = Inr w1"
      by (simp add: Let_def)
    from Cons.IH [OF this, of "emit (Get ?key True True) v"] Cons.prems(2,3) i None
    show ?thesis by (simp add: Let_def)
  next
    case (Some r)
    with Cons.prems i show ?thesis
      by (auto simp: Let_def RemoveEnv_def)
  qed
qed

lemma register_instances_fields:
  "register_instances js action nm ns w = Inr w' \<Longrightarrow>
     client w' = client w \<and> config w' = config w \<and> domains w' = domains w"
proof (cases "action = ''delete''")
  case False
  assume "register_instances js action nm ns w = Inr w'"
  from register_instances_indices [OF this False] show ?thesis by simp
next
  case True
  assume "register_instances js action nm ns w = Inr w'"
  with True show ?thesis
  proof (induction ns arbitrary: w)
    case Nil
    then show ?case by simp
  next
    case (Cons nd ns)
    then show ?case
      by (auto simp: Let_def RemoveEnv_def split: sum.splits option.splits)
  qed
qed

subsection \<open>A second delivery\<close>

lemma registerService_again:
  assumes first: "registerService js n action w = Inr w1"
  shows "\<exists>w2. registerService js n action w1 = Inr w2 \<and> services w2 = services w1
              \<and> domains w2 = domains w1 \<and> publishes w2 = publishes w1"
proof -
  let ?P = "servicePrefix (config w)"
  from first obtain nm where nm: "getEnvForNode ?P n = Inr nm"
    by (auto simp: registerService_def split: sum.splits)
  let ?root = "?P @ ''/'' @ nm"
  show ?thesis
  proof (cases "client w ?root True True")
    case None
    with first nm have "w1 = emit (Unable_to_get_service nm) (emit (Get ?root True True) w)"
      by (simp add: registerService_def Let_def)
    with None nm show ?thesis by (simp add: registerService_def Let_def)
  next
    case (Some r)
    let ?w0 = "emit (Get ?root True True) w"
    from first nm Some have run: "register_instances js action nm (Nodes (Node r)) ?w0 = Inr w1"
      by (simp add: registerService_def Let_def)
    from register_instances_fields [OF run]
    have same: "client w1 = client w" "config w1 = config w" by simp_all
    let ?v = "emit (Get ?root True True) w1"
    have second: "registerService js n action w1 = register_instances js action nm (Nodes (Node r)) ?v"
      using nm Some same by (simp add: registerService_def Let_def)
    show ?thesis
    proof (cases "action = ''delete''")
      case True
      from register_instances_delete_again [OF run [unfolded True], of ?v] same
      obtain v1 where v1: "register_instances js ''delete'' nm (Nodes (Node r)) ?v = Inr v1"
        "domains v1 = domains ?v" "publishes v1 = publishes ?v"
        "(services w1 = (services ?w0)(nm := None) \<and> services v1 = (services ?v)(nm := None))
           \<or> (services w1 = services ?w0 \<and> services v1 = services ?v)"
        by auto
      from v1(4) have "services v1 = services w1" by auto
      with v1 second True show ?thesis by simp
    next
      case False
      from register_instances_in_sync [OF run False]
      have "\<forall>nd\<in>set (Nodes (Node r)). \<exists>i. getEnvIndexForNode (servicePrefix (config ?v)) nd = Inr i
              \<and> in_sync js nm ?v i"
        using same by simp
      from register_instances_noop [OF False this] second show ?thesis by simp
    qed
  qed
qed

lemma registerDomain_again:
  assumes first: "registerDomain n action w = Inr w1"
  shows "(\<exists>e nm r. registerDomain n action w1 = Inl e
            \<and> getDomainForNode (domainPrefix (config w)) n = Inr nm
            \<and> client w (domainPrefix (config w) @ ''/'' @ nm) True False = Some r
            \<and> (\<exists>x\<in>set (Nodes (Node r)). submatch_config (domainPrefix (config w)) (Key x) \<noteq> None))
       \<or> (\<exists>w2. registerDomain n action w1 = Inr w2 \<and> domains w2 = domains w1
              \<and> services w2 = services w1 \<and> publishes w2 = publishes w1)"
proof -
  let ?P = "domainPrefix (config w)"
  from first obtain nm where nm: "getDomainForNode ?P n = Inr nm"
    by (auto simp: registerDomain_def split: sum.splits)
  let ?key = "?P @ ''/'' @ nm"
  let ?w0 = "emit (Get ?key True False) w"
  let ?v = "emit (Get ?key True False) w1"
  show ?thesis
  proof (cases "action = ''delete'' \<or> action = ''expire''")
    case True
    show ?thesis
    proof (cases "isDomainConfiguration ?P n")
      case cfg: True
      from first nm True cfg have r: "removeDomainConfiguration n ?w0 = Inr w1"
        by (auto simp: registerDomain_def Let_def)
      then have c: "config w1 = config w"
        by (auto simp: removeDomainConfiguration_def split: option.splits sum.splits prod.splits)
      from removeDomainConfiguration_again [OF r, of ?v] c
      obtain v1 where "removeDomainConfiguration n ?v = Inr v1" "domains v1 = domains w1"
        "services v1 = services ?v" "trace v1 = trace ?v" by auto
      then show ?thesis using nm True cfg c
        by (auto simp: registerDomain_def Let_def publishes_def)
    next
      case nocfg: False
      from first nm True nocfg have w1: "w1 = RemoveDomain nm ?w0"
        by (auto simp: registerDomain_def Let_def)
      then have "registerDomain n action w1 = Inr (RemoveDomain nm ?v)"
        using nm True nocfg by (auto simp: registerDomain_def Let_def RemoveDomain_def)
      then show ?thesis using w1 by (simp add: RemoveDomain_def publishes_def)
    qed
  next
    case False
    show ?thesis
    proof (cases "client w ?key True False")
      case None
      with first nm False have w1: "w1 = ?w0" by (auto simp: registerDomain_def Let_def)
      then have "registerDomain n action w1 = Inr ?v"
        using nm False None by (auto simp: registerDomain_def Let_def)
      then show ?thesis by simp
    next
      case (Some r)
      let ?ns = "Nodes (Node r)"
      from first nm False Some obtain d w2 where
        wk: "walk_nodes ?key ?ns (new_Domain, ?w0) = Inr (d, w2)" and w1: "w1 = publish_domain nm d w2"
        by (auto simp: registerDomain_def Let_def split: sum.splits)
      from walk_nodes_result [OF wk]
      have d: "d = foldl (fill_node ?key) new_Domain ?ns" and w2: "w2 = settled ?P ?ns ?w0" by simp_all
      have dnil: "config_D d = None" unfolding d by (simp add: new_Domain_def)
      have same: "config w1 = config w" "client w1 = client w" "services w1 = services w"
        unfolding w1 w2 by (simp_all add: publish_domain_def emit_def)
      have stable: "map_option (settle (writes ?P ?ns x)) (domains w1 x) = domains w1 x" for x
        unfolding w1 w2
        by (simp add: publish_domain_def domains_settled emit_def option.map_comp comp_def
              settle_nil_config [OF dnil])
      have second: "registerDomain n action w1 =
          (case walk_nodes ?key ?ns (new_Domain, ?v) of
             Inl e \<Rightarrow> Inl e
           | Inr dw \<Rightarrow> Inr (publish_domain nm (fst dw) (snd dw)))"
        using nm False Some same by (simp add: registerDomain_def Let_def)
      show ?thesis
      proof (cases "walk_nodes ?key ?ns (new_Domain, ?v)")
        case (Inl e)
        from walk_nodes_Inl [OF Inl] same
        have "\<exists>x\<in>set ?ns. isDomainConfiguration ?P x" by simp
        moreover from walk_nodes_Inr_config [OF wk]
        have "\<forall>x\<in>set ?ns. isDomainConfiguration ?P x \<longrightarrow> submatch_config ?P (Key x) \<noteq> None"
          by simp
        ultimately have "\<exists>x\<in>set ?ns. submatch_config ?P (Key x) \<noteq> None" by blast
        with second Inl nm Some show ?thesis by auto
      next
        case (Inr dw)
        obtain d' v2 where dw: "dw = (d', v2)" by (cases dw)
        from walk_nodes_result [OF Inr [unfolded dw]] same
        have d': "d' = d" and v2: "v2 = settled ?P ?ns ?v" by (simp_all add: d)
        have dom2: "domains v2 = domains w1"
          unfolding v2 by (rule ext) (simp add: domains_settled stable)
        have "\<not> (typ_D d \<noteq> [] \<and> value_D d \<noteq> [] \<and> \<not> Domain_equals d (domains w1 nm))"
          unfolding w1 by (simp add: publish_domain_def emit_def Domain_equals_def)
        then have "publish_domain nm d v2 = v2"
          using dom2 by (auto simp: publish_domain_def)
        with second Inr dw d' have "registerDomain n action w1 = Inr v2" by simp
        moreover have "services v2 = services w1" "publishes v2 = publishes w1"
          unfolding v2 by (simp_all add: publishes_def)
        ultimately show ?thesis using dom2 by simp
      qed
    qed
  qed
qed

subsection \<open>A put on the domain registrar\<close>

text \<open>
  The put branch of the domain registrar, case by case. With the name of the domain
  decoded and \<open>key\<close> its root key: when the read fails the registrar returns with the
  read added to the trace; when the loop over the nodes panics, so does the registrar;
  when the loop returns the Domain \<open>d\<close>, the registrar publishes \<open>d\<close> (the entry and one
  log line) exactly when \<open>d\<close> has a kind and a target and differs from the Domain
  registered under the name before the invocation, a missing Domain differing from every
  Domain; so a registry in which every Domain has a kind and a target stays one.
\<close>

lemma registerDomain_put_cases:
  assumes act: "action \<noteq> ''delete''" "action \<noteq> ''expire''"
      and nm: "getDomainForNode (domainPrefix (config w)) n = Inr domainName"
      and key: "key = domainPrefix (config w) @ ''/'' @ domainName"
  shows "(client w key True False = None \<longrightarrow>
            registerDomain n action w = Inr (emit (Get key True False) w))
       \<and> (\<forall>r e. client w key True False = Some r \<longrightarrow>
            walk_nodes key (Nodes (Node r)) (new_Domain, emit (Get key True False) w) = Inl e \<longrightarrow>
            registerDomain n action w = Inl e)
       \<and> (\<forall>r d w2. client w key True False = Some r \<longrightarrow>
            walk_nodes key (Nodes (Node r)) (new_Domain, emit (Get key True False) w) = Inr (d, w2) \<longrightarrow>
            registerDomain n action w =
              Inr (if typ_D d \<noteq> [] \<and> value_D d \<noteq> [] \<and> \<not> Domain_equals d (domains w domainName)
                   then emit (Registered_domain domainName (typ_D d) (value_D d))
                          (w2\<lparr>domains := (domains w2)(domainName \<mapsto> d)\<rparr>)
                   else w2)
            \<and> (\<forall>x. map_option kind_target (domains w2 x) = map_option kind_target (domains w x))
            \<and> services w2 = services w
            \<and> trace w2 = trace w @ [Get key True False])
       \<and> \<not> Domain_equals d' None
       \<and> ((\<forall>x dm. domains w x = Some dm \<longrightarrow> typ_D dm \<noteq> [] \<and> value_D dm \<noteq> []) \<longrightarrow>
          (\<forall>w' x dm. registerDomain n action w = Inr w' \<longrightarrow> domains w' x = Some dm \<longrightarrow>
             typ_D dm \<noteq> [] \<and> value_D dm \<noteq> []))"
proof -
  let ?w1 = "emit (Get key True False) w"
  have none: "client w key True False = None \<Longrightarrow> registerDomain n action w = Inr ?w1"
    using act nm key by (simp add: registerDomain_def Let_def)
  have inl: "registerDomain n action w = Inl e"
    if "client w key True False = Some r" "walk_nodes key (Nodes (Node r)) (new_Domain, ?w1) = Inl e" for r e
    using act nm key that by (simp add: registerDomain_def Let_def)
  have inr: "registerDomain n action w =
              Inr (if typ_D d \<noteq> [] \<and> value_D d \<noteq> [] \<and> \<not> Domain_equals d (domains w domainName)
                   then emit (Registered_domain domainName (typ_D d) (value_D d))
                          (w2\<lparr>domains := (domains w2)(domainName \<mapsto> d)\<rparr>)
                   else w2)
            \<and> (\<forall>x. map_option kind_target (domains w2 x) = map_option kind_target (domains w x))
            \<and> services w2 = services w
            \<and> trace w2 = trace w @ [Get key True False]"
    if r: "client w key True False = Some r"
      and wk: "walk_nodes key (Nodes (Node r)) (new_Domain, ?w1) = Inr (d, w2)" for r d w2
  proof -
    from walk_nodes_result [OF wk] have w2: "w2 = settled (domainPrefix (config w)) (Nodes (Node r)) ?w1"
      by simp
    have eq: "Domain_equals d (domains w2 domainName) = Domain_equals d (domains w domainName)"
      unfolding w2 by (simp add: Domain_equals_settled)
    have "registerDomain n action w = Inr (publish_domain domainName d w2)"
      using act nm key r wk by (simp add: registerDomain_def Let_def)
    then have "registerDomain n action w =
              Inr (if typ_D d \<noteq> [] \<and> value_D d \<noteq> [] \<and> \<not> Domain_equals d (domains w domainName)
                   then emit (Registered_domain domainName (typ_D d) (value_D d))
                          (w2\<lparr>domains := (domains w2)(domainName \<mapsto> d)\<rparr>)
                   else w2)"
      by (simp add: publish_domain_def eq)
    moreover have "\<forall>x. map_option kind_target (domains w2 x) = map_option kind_target (domains w x)"
      unfolding w2 by (simp add: kind_target_settled)
    moreover have "services w2 = services w" "trace w2 = trace w @ [Get key True False]"
      unfolding w2 by simp_all
    ultimately show ?thesis by blast
  qed
  have miss: "\<not> Domain_equals d' None" by (simp add: Domain_equals_def)
  have inv: "typ_D dm \<noteq> [] \<and> value_D dm \<noteq> []"
    if good: "\<forall>x dm. domains w x = Some dm \<longrightarrow> typ_D dm \<noteq> [] \<and> value_D dm \<noteq> []"
      and res: "registerDomain n action w = Inr w'" and dm: "domains w' x = Some dm" for w' x dm
  proof (cases "client w key True False")
    case None
    from none [OF None] res dm good show ?thesis by auto
  next
    case (Some r)
    show ?thesis
    proof (cases "walk_nodes key (Nodes (Node r)) (new_Domain, ?w1)")
      case (Inl e)
      from inl [OF Some Inl] res show ?thesis by simp
    next
      case (Inr dw)
      obtain d w2 where dw: "dw = (d, w2)" by (cases dw)
      note facts = inr [OF Some Inr [unfolded dw]]
      have old: "typ_D dm \<noteq> [] \<and> value_D dm \<noteq> []" if "domains w2 x = Some dm"
      proof -
        from facts that have "map_option kind_target (domains w x) = Some (kind_target dm)"
          by (metis option.simps(9))
        then obtain dm0 where "domains w x = Some dm0" "kind_target dm0 = kind_target dm"
          by (cases "domains w x") auto
        with good show ?thesis by (auto simp: kind_target_def)
      qed
      from facts res have w': "w' = (if typ_D d \<noteq> [] \<and> value_D d \<noteq> [] \<and> \<not> Domain_equals d (domains w domainName)
                   then emit (Registered_domain domainName (typ_D d) (value_D d))
                          (w2\<lparr>domains := (domains w2)(domainName \<mapsto> d)\<rparr>)
                   else w2)" by simp
      show ?thesis
      proof (cases "typ_D d \<noteq> [] \<and> value_D d \<noteq> [] \<and> \<not> Domain_equals d (domains w domainName)")
        case True
        with w' dm old show ?thesis by (cases "x = domainName") auto
      next
        case False
        with w' dm old show ?thesis by auto
      qed
    qed
  qed
  from none inl inr miss inv show ?thesis by blast
qed

subsection \<open>Decoding a location\<close>

lemma decode_stated_value:
  "decode_location ''{\"Host\":\"10.0.0.5\",\"Port\":8080}'' = Some \<lparr>Host = ''10.0.0.5'', Port = 8080\<rparr>"
  by code_simp

lemma decode_truncated_value: "decode_location ''{Host:'' = None"
  by code_simp

subsection \<open>The Service in closed form\<close>

lemma latest_Nil [simp]: "latest d [] = d"
  by (simp add: latest_def)

lemma latest_Cons [simp]: "latest d (x # xs) = latest x xs"
  by (simp add: latest_def)

lemma latest_latest: "latest (latest d xs) ys = latest d (xs @ ys)"
  by (induction xs arbitrary: d) simp_all

lemma latest_snoc [simp]: "latest d (xs @ [x]) = x"
  by (simp add: latest_latest [symmetric])

lemma decoded_Nil [simp]: "decoded f k [] = []"
  by (simp add: decoded_def)

lemma decoded_append [simp]: "decoded f k (xs @ ys) = decoded f k xs @ decoded f k ys"
  by (simp add: decoded_def)

lemma decoded_single:
  "decoded f k [n] = (if Key n = k then (case f (Value n) of None \<Rightarrow> [] | Some v \<Rightarrow> [v]) else [])"
  by (simp add: decoded_def)

lemma status_leaves:
  "foldl (status_leaf k) st subs =
     \<lparr>alive = latest (alive st) (decoded Some (k @ ''/alive'') subs),
      current = latest (current st) (decoded Some (k @ ''/current'') subs),
      expected = latest (expected st) (decoded Some (k @ ''/expected'') subs)\<rparr>"
proof (induction subs rule: rev_induct)
  case Nil
  then show ?case by simp
next
  case (snoc x xs)
  then show ?case by (simp add: status_leaf_def decoded_single)
qed

lemma config_leaves:
  "config_S (foldl (config_leaf js k) s subs) =
     latest (config_S s) (decoded (unmarshal_config js) (k @ ''/gogeta'') subs)"
proof (induction subs rule: rev_induct)
  case Nil
  then show ?case by simp
next
  case (snoc x xs)
  then show ?case by (simp add: config_leaf_def decoded_single split: option.splits)
qed

lemma other_config_leaves:
  "location (foldl (config_leaf js k) s subs) = location s"
  "index (foldl (config_leaf js k) s subs) = index s"
  "nodeKey (foldl (config_leaf js k) s subs) = nodeKey s"
  "name (foldl (config_leaf js k) s subs) = name s"
  "domain (foldl (config_leaf js k) s subs) = domain s"
  "status (foldl (config_leaf js k) s subs) = status s"
  by (induction subs arbitrary: s; simp add: config_leaf_def split: option.splits)+

lemma service_node_fields:
  "location (service_node js key s n) =
     latest (location s) (decoded (unmarshal_location js) (key @ ''/location'') [n])"
  "config_S (service_node js key s n) =
     latest (config_S s) (decoded (unmarshal_config js) (key @ ''/config/gogeta'')
        (if Key n = key @ ''/config'' then Nodes n else []))"
  "index (service_node js key s n) = index s"
  "nodeKey (service_node js key s n) = nodeKey s"
  "name (service_node js key s n) = name s"
  "domain (service_node js key s n) = latest (domain s) (decoded Some (key @ ''/domain'') [n])"
  "status (service_node js key s n) =
     latest (status s) (map (\<lambda>n. Some (status_of (key @ ''/status'') (Nodes n)))
                          (filter (\<lambda>n. Key n = key @ ''/status'') [n]))"
  by (simp_all add: service_node_def decoded_single other_config_leaves config_leaves
        status_leaves status_of_def split: option.splits)

lemma build_service_closed_form:
  "build_service js i key nm ns = service_of js i key nm ns"
proof (induction ns rule: rev_induct)
  case Nil
  show ?case by (simp add: build_service_def new_Service_def service_of_def)
next
  case (snoc n ns)
  have "build_service js i key nm (ns @ [n]) = service_node js key (service_of js i key nm ns) n"
    by (simp add: build_service_snoc snoc.IH)
  also have "\<dots> = service_of js i key nm (ns @ [n])"
    by (rule Service.equality)
       (simp_all add: service_node_fields service_of_def latest_latest)
  finally show ?case .
qed

subsection \<open>The service registrar returns\<close>

text \<open>
  The loop of the service registrar panics only on a node under the root from whose key
  no index can be taken: the cluster it publishes into is allocated at line 189.
\<close>

lemma publish_service_returns:
  "services w nm \<noteq> None \<Longrightarrow>
     \<exists>w'. publish_service nm s w = Inr w' \<and> config w' = config w \<and> client w' = client w"
  by (auto simp: publish_service_def)

lemma register_instances_returns:
  "\<forall>nd\<in>set ns. \<exists>i. getEnvIndexForNode (servicePrefix (config w)) nd = Inr i \<Longrightarrow>
     \<exists>w'. register_instances js action nm ns w = Inr w'"
proof (induction ns arbitrary: w)
  case Nil
  then show ?case by simp
next
  case (Cons nd ns)
  from Cons.prems obtain i where i: "getEnvIndexForNode (servicePrefix (config w)) nd = Inr i"
    by auto
  let ?key = "instance_key w nm i"
  let ?w1 = "emit (Get ?key True True) w"
  have rest: "\<exists>w'. register_instances js action nm ns v = Inr w'" if "config v = config w" for v
    using Cons.prems that by (intro Cons.IH) simp
  show ?case
  proof (cases "action = ''delete''")
    case True
    show ?thesis
    proof (cases "client w ?key True True")
      case None
      with rest [of ?w1] i True show ?thesis by (simp add: Let_def instance_key_def)
    next
      case (Some r)
      with i True show ?thesis by (simp add: Let_def instance_key_def)
    qed
  next
    case False
    note step = register_instances_Cons [OF False i, of js nm ns]
    show ?thesis
    proof (cases "client w ?key True True")
      case None
      with rest [of ?w1] step show ?thesis by simp
    next
      case (Some r)
      let ?w2 = "if services w nm = None
                 then ?w1\<lparr>services := (services w)(nm \<mapsto> new_ServiceCluster)\<rparr> else ?w1"
      let ?s = "build_service js i ?key nm (Nodes (Node r))"
      have "services ?w2 nm \<noteq> None" by simp
      from publish_service_returns [OF this, of ?s] obtain w3 where
        w3: "publish_service nm ?s ?w2 = Inr w3" and c3: "config w3 = config ?w2" by blast
      from c3 have "config w3 = config w" by (simp split: if_splits)
      from rest [OF this] obtain w' where "register_instances js action nm ns w3 = Inr w'" by blast
      with step Some w3 show ?thesis by simp
    qed
  qed
qed


subsection \<open>The cluster after a pass\<close>



section \<open>The claims\<close>

subsection \<open>The domain registrar\<close>

text \<open>
  C1. The domain \<^verbatim>\<open>api\<close> is fully defined in etcd, with the type \<^verbatim>\<open>service\<close> and the
  value \<^verbatim>\<open>orders\<close>, and has a directory of settings; no Domain is registered under
  \<^verbatim>\<open>api\<close>. The registrar is given the put of its type. The cases of the switch for the
  type and the value (lines 109 to 112), run over the children of the root, give the
  Domain \<open>api_domain\<close>: it has a kind and a target and differs from the missing Domain,
  so the claim has it published. The registrar panics on the first child, the directory
  \<^verbatim>\<open>/domains/api/config\<close> (line 137, the defect of C4), and publishes nothing. Where the
  loop returns, the registrar publishes as the claim says (\<open>registerDomain_put_cases\<close>).
\<close>

theorem registerDomain_defined_domain_panics:
  "registerDomain (EtcdNode ''/domains/api/type'' ''service'' []) ''set''
     (example_watcher (etcd_of [(''/domains/api'', api_with_settings)]) Map.empty Map.empty) =
     Inl IndexOutOfRange
   \<and> foldl (fill_node ''/domains/api'') new_Domain (Nodes api_with_settings) = api_domain
   \<and> kind_target api_domain = (''service'', ''orders'')
   \<and> Domain_equals api_domain
        (domains (example_watcher (etcd_of [(''/domains/api'', api_with_settings)]) Map.empty Map.empty)
           ''api'') = False"
  by (simp add: registerDomain_def getDomainForNode_def submatch_rest_def starts_with_def
        dot_star_def index_at_def example_watcher_def example_config_def emit_def
        isDomainConfiguration_def match_config_def contains_def etcd_of_def api_with_settings_def
        walk_node_def getDomainConfiguration_def submatch_config_def Let_def
        fill_node_def new_Domain_def api_domain_def kind_target_def Domain_equals_def)

text \<open>
  C3. The registrar is given the deletion of the setting \<^verbatim>\<open>timeout\<close> of the domain
  \<^verbatim>\<open>api\<close> when no Domain is registered under \<^verbatim>\<open>api\<close> (its kind and target were never
  set, so that it was never published): line 143 reads the field \<^verbatim>\<open>config\<close> of the nil
  pointer \<^verbatim>\<open>w.domains["api"]\<close> and the registrar panics, where the claim promises that
  nothing happens.
\<close>

theorem registerDomain_delete_setting_panics:
  "registerDomain (EtcdNode ''/domains/api/config/timeout'' [] []) ''delete''
     (example_watcher etcd_down Map.empty Map.empty) = Inl NilDereference"
  by (simp add: registerDomain_def getDomainForNode_def submatch_rest_def starts_with_def
        dot_star_def index_at_def example_watcher_def example_config_def emit_def
        isDomainConfiguration_def match_config_def contains_def
        removeDomainConfiguration_def submatch_config_def Let_def)

text \<open>
  C4. The registrar is given the new setting \<^verbatim>\<open>timeout = 30\<close> of the domain \<^verbatim>\<open>api\<close>,
  which it has registered before. The read of line 94 is not recursive, and the loop
  looks at the children of the root only: it meets the directory
  \<^verbatim>\<open>/domains/api/config\<close>, which \<^verbatim>\<open>isDomainConfiguration\<close> accepts and the expression of
  \<^verbatim>\<open>getDomainConfiguration\<close> does not match, and line 137 panics with an index out of
  range; no setting reaches the Domain. The second equation shows the read the
  registrar sends for a domain without settings: \<^verbatim>\<open>Get("/domains/api", true, false)\<close>.
\<close>

theorem registerDomain_put_setting_panics:
  "registerDomain (EtcdNode ''/domains/api/config/timeout'' ''30'' []) ''set''
     (example_watcher (etcd_of [(''/domains/api'', api_with_settings)])
        [''api'' \<mapsto> api_domain] Map.empty) = Inl IndexOutOfRange
   \<and> registerDomain (EtcdNode ''/domains/api/type'' ''service'' []) ''set''
     (example_watcher (etcd_of [(''/domains/api'', api_plain)]) Map.empty Map.empty) =
   Inr ((example_watcher (etcd_of [(''/domains/api'', api_plain)]) [''api'' \<mapsto> api_domain] Map.empty)
         \<lparr>trace := [Get ''/domains/api'' True False, Registered_domain ''api'' ''service'' ''orders'']\<rparr>)"
  using api_first_delivery
  by (simp add: registerDomain_def getDomainForNode_def submatch_rest_def starts_with_def
        dot_star_def index_at_def example_watcher_def example_config_def emit_def
        isDomainConfiguration_def match_config_def contains_def etcd_of_def api_with_settings_def
        walk_node_def getDomainConfiguration_def submatch_config_def Let_def)

subsection \<open>The service registrar\<close>

text \<open>
  C2. The registrar is given the deletion of \<^verbatim>\<open>/services/orders/1\<close>, the last instance
  of the service \<^verbatim>\<open>orders\<close>: the read of the root succeeds and returns no instance, the
  loop of line 178 does not run, and the cluster stays registered with its instance.
  The same happens when the whole directory of the service is deleted and the read of
  the root fails. The removal of line 202 is reached only when an instance is left in
  etcd.
\<close>

theorem registerService_delete_keeps_cluster:
  "registerService example_json (EtcdNode ''/services/orders/1'' [] []) ''delete''
     (example_watcher (etcd_of [(''/services/orders'', EtcdNode ''/services/orders'' [] [])])
        Map.empty [''orders'' \<mapsto> orders_cluster [''1'']]) =
   Inr ((example_watcher (etcd_of [(''/services/orders'', EtcdNode ''/services/orders'' [] [])])
        Map.empty [''orders'' \<mapsto> orders_cluster [''1'']])
         \<lparr>trace := [Get ''/services/orders'' True True]\<rparr>)
   \<and> registerService example_json (EtcdNode ''/services/orders'' [] []) ''delete''
     (example_watcher etcd_down Map.empty [''orders'' \<mapsto> orders_cluster [''1'']]) =
   Inr ((example_watcher etcd_down Map.empty [''orders'' \<mapsto> orders_cluster [''1'']])
         \<lparr>trace := [Get ''/services/orders'' True True, Unable_to_get_service ''orders'']\<rparr>)"
  by (simp add: registerService_def getEnvForNode_def submatch_rest_def starts_with_def
        dot_star_def index_at_def example_watcher_def example_config_def etcd_of_def
        etcd_down_def emit_def Let_def)

text \<open>
  C5. When the read of the service's root key (line 174) fails, the registrar changes
  neither registry: the watcher it returns is the one it was given, with the read and
  the one error line added to the trace. The first hypothesis says that the name of
  the service could be decoded from the key, so that the read is reached.
\<close>

theorem registerService_read_fails:
  assumes "getEnvForNode (servicePrefix (config w)) n = Inr serviceName"
      and "client w (servicePrefix (config w) @ ''/'' @ serviceName) True True = None"
  shows "registerService js n action w =
           Inr (w\<lparr>trace := trace w @
                  [Get (servicePrefix (config w) @ ''/'' @ serviceName) True True,
                   Unable_to_get_service serviceName]\<rparr>)"
  using assms by (simp add: registerService_def emit_def Let_def)

theorem registerService_read_fails_witness:
  "getEnvForNode (servicePrefix (config (example_watcher etcd_down Map.empty [''orders'' \<mapsto> orders_cluster [''1'']])))
      (EtcdNode ''/services/orders/1'' [] []) = Inr ''orders''
   \<and> client (example_watcher etcd_down Map.empty [''orders'' \<mapsto> orders_cluster [''1'']])
        (servicePrefix (config (example_watcher etcd_down Map.empty [''orders'' \<mapsto> orders_cluster [''1'']]))
           @ ''/'' @ ''orders'') True True = None
   \<and> registerService example_json (EtcdNode ''/services/orders/1'' [] []) ''set''
        (example_watcher etcd_down Map.empty [''orders'' \<mapsto> orders_cluster [''1'']]) =
       Inr ((example_watcher etcd_down Map.empty [''orders'' \<mapsto> orders_cluster [''1'']])
             \<lparr>trace := trace (example_watcher etcd_down Map.empty [''orders'' \<mapsto> orders_cluster [''1'']]) @
                [Get (servicePrefix (config (example_watcher etcd_down Map.empty [''orders'' \<mapsto> orders_cluster [''1'']]))
                        @ ''/'' @ ''orders'') True True,
                 Unable_to_get_service ''orders'']\<rparr>)"
proof -
  let ?w = "example_watcher etcd_down Map.empty [''orders'' \<mapsto> orders_cluster [''1'']]"
  have k: "getEnvForNode (servicePrefix (config ?w)) (EtcdNode ''/services/orders/1'' [] []) = Inr ''orders''"
    by (simp add: example_watcher_def example_config_def getEnvForNode_def submatch_rest_def
          starts_with_def dot_star_def index_at_def)
  have r: "client ?w (servicePrefix (config ?w) @ ''/'' @ ''orders'') True True = None"
    by (simp add: example_watcher_def etcd_down_def)
  from registerService_read_fails [OF k r] k r show ?thesis by blast
qed

text \<open>
  C6. \<open>build_service\<close> is the Service the registrar builds from the nodes \<open>ns\<close> read
  under the key of an instance; it has no error result.
  \<^item> It is the Service of the closed form \<open>service_of\<close>: the configuration, the domain
    and the status are those the nodes give, whatever the location leaves hold.
  \<^item> When the instance has a location leaf and every location leaf holds
    \<^verbatim>\<open>{"Host":"10.0.0.5","Port":8080}\<close>, the Service built with Go's decoder has the host
    10.0.0.5 and the port 8080.
  \<^item> When no location leaf decodes, the endpoint is the zero location the Service was
    created with.
  \<^item> The registrar returns, without a panic, whenever an index can be taken from the key
    of every node under the service's root; what a location decodes to plays no part.
\<close>

theorem built_service_fields:
  "build_service js i key nm ns = service_of js i key nm ns
   \<and> ((\<exists>n\<in>set ns. Key n = key @ ''/location'') \<longrightarrow>
      (\<forall>n\<in>set ns. Key n = key @ ''/location'' \<longrightarrow> Value n = ''{\"Host\":\"10.0.0.5\",\"Port\":8080}'') \<longrightarrow>
      location (build_service (go_json dc z) i key nm ns) = \<lparr>Host = ''10.0.0.5'', Port = 8080\<rparr>)
   \<and> ((\<forall>n\<in>set ns. Key n = key @ ''/location'' \<longrightarrow> unmarshal_location js (Value n) = None) \<longrightarrow>
      location (build_service js i key nm ns) = \<lparr>Host = [], Port = 0\<rparr>)
   \<and> (getEnvForNode (servicePrefix (config w)) n = Inr serviceName \<longrightarrow>
      (\<forall>r. client w (servicePrefix (config w) @ ''/'' @ serviceName) True True = Some r \<longrightarrow>
           (\<forall>nd\<in>set (Nodes (Node r)). \<exists>x. getEnvIndexForNode (servicePrefix (config w)) nd = Inr x)) \<longrightarrow>
      (\<exists>w'. registerService js n action w = Inr w'))"
proof (intro conjI impI)
  show "build_service js i key nm ns = service_of js i key nm ns"
    by (rule build_service_closed_form)
next
  assume ex: "\<exists>n\<in>set ns. Key n = key @ ''/location''"
    and all: "\<forall>n\<in>set ns. Key n = key @ ''/location'' \<longrightarrow> Value n = ''{\"Host\":\"10.0.0.5\",\"Port\":8080}''"
  from all have "\<forall>n\<in>set ns. Key n = key @ ''/location'' \<longrightarrow>
      unmarshal_location (go_json dc z) (Value n) = Some \<lparr>Host = ''10.0.0.5'', Port = 8080\<rparr>"
    by (simp add: go_json_def decode_stated_value)
  from location_build_service [OF this] ex
  show "location (build_service (go_json dc z) i key nm ns) = \<lparr>Host = ''10.0.0.5'', Port = 8080\<rparr>"
    by simp
next
  assume bad: "\<forall>n\<in>set ns. Key n = key @ ''/location'' \<longrightarrow> unmarshal_location js (Value n) = None"
  then have "decoded (unmarshal_location js) (key @ ''/location'') ns = []"
    by (induction ns) (simp_all add: decoded_def)
  then show "location (build_service js i key nm ns) = \<lparr>Host = [], Port = 0\<rparr>"
    by (simp add: build_service_closed_form service_of_def)
next
  assume nm: "getEnvForNode (servicePrefix (config w)) n = Inr serviceName"
    and idx: "\<forall>r. client w (servicePrefix (config w) @ ''/'' @ serviceName) True True = Some r \<longrightarrow>
           (\<forall>nd\<in>set (Nodes (Node r)). \<exists>x. getEnvIndexForNode (servicePrefix (config w)) nd = Inr x)"
  let ?root = "servicePrefix (config w) @ ''/'' @ serviceName"
  show "\<exists>w'. registerService js n action w = Inr w'"
  proof (cases "client w ?root True True")
    case None
    with nm show ?thesis by (simp add: registerService_def Let_def)
  next
    case (Some r)
    with idx have "\<forall>nd\<in>set (Nodes (Node r)).
        \<exists>x. getEnvIndexForNode (servicePrefix (config (emit (Get ?root True True) w))) nd = Inr x"
      by simp
    from register_instances_returns [OF this] nm Some show ?thesis
      by (simp add: registerService_def Let_def)
  qed
qed

theorem built_service_fields_witness:
  "location (build_service (go_json (\<lambda>v. if v = ''{}'' then Some True else None) False)
      ''1'' ''/services/orders/1'' ''orders''
      [EtcdNode ''/services/orders/1/domain'' ''api'' [],
       EtcdNode ''/services/orders/1/location'' ''{\"Host\":\"10.0.0.5\",\"Port\":8080}'' []]) =
     \<lparr>Host = ''10.0.0.5'', Port = 8080\<rparr>
   \<and> build_service (go_json (\<lambda>v. if v = ''{}'' then Some True else None) False)
      ''1'' ''/services/orders/1'' ''orders'' (Nodes undecodable_instance) =
     \<lparr>location = \<lparr>Host = [], Port = 0\<rparr>, config_S = True, index = ''1'',
      nodeKey = ''/services/orders/1'', name = ''orders'', domain = ''api'',
      status = Some \<lparr>alive = ''true'', current = ''1'', expected = []\<rparr>\<rparr>
   \<and> (case registerService (go_json (\<lambda>v. if v = ''{}'' then Some True else None) False)
           (EtcdNode ''/services/orders/1/location'' ''{Host:'' []) ''set''
           \<lparr>client = etcd_undecodable, config = example_config, domains = Map.empty,
              services = Map.empty, trace = []\<rparr> of
        Inl e \<Rightarrow> False
      | Inr w' \<Rightarrow> True)"
proof -
  let ?js = "go_json (\<lambda>v. if v = ''{}'' then Some True else None) False"
  let ?good = "[EtcdNode ''/services/orders/1/domain'' ''api'' [],
       EtcdNode ''/services/orders/1/location'' ''{\"Host\":\"10.0.0.5\",\"Port\":8080}'' []]"
  let ?w = "\<lparr>client = etcd_undecodable, config = example_config, domains = Map.empty,
              services = Map.empty, trace = []\<rparr> :: bool watcher"
  let ?n = "EtcdNode ''/services/orders/1/location'' ''{Host:'' []"
  note fields = built_service_fields [where js = ?js and i = "''1''" and key = "''/services/orders/1''"
      and nm = "''orders''" and z = False and dc = "\<lambda>v. if v = ''{}'' then Some True else None"
      and w = ?w and n = ?n and serviceName = "''orders''" and action = "''set''"]
  have g1: "\<exists>n\<in>set ?good. Key n = ''/services/orders/1'' @ ''/location''" by simp
  have g2: "\<forall>n\<in>set ?good. Key n = ''/services/orders/1'' @ ''/location'' \<longrightarrow>
              Value n = ''{\"Host\":\"10.0.0.5\",\"Port\":8080}''" by simp
  from fields [where ns = ?good] g1 g2
  have a: "location (build_service ?js ''1'' ''/services/orders/1'' ''orders'' ?good) =
             \<lparr>Host = ''10.0.0.5'', Port = 8080\<rparr>" by blast
  from fields [where ns = "Nodes undecodable_instance"]
  have "build_service ?js ''1'' ''/services/orders/1'' ''orders'' (Nodes undecodable_instance) =
          service_of ?js ''1'' ''/services/orders/1'' ''orders'' (Nodes undecodable_instance)" by blast
  also have "\<dots> = \<lparr>location = \<lparr>Host = [], Port = 0\<rparr>, config_S = True, index = ''1'',
      nodeKey = ''/services/orders/1'', name = ''orders'', domain = ''api'',
      status = Some \<lparr>alive = ''true'', current = ''1'', expected = []\<rparr>\<rparr>"
    by (simp add: service_of_def status_of_def decoded_def undecodable_instance_def go_json_def
          decode_truncated_value)
  finally have b: "build_service ?js ''1'' ''/services/orders/1'' ''orders'' (Nodes undecodable_instance) =
     \<lparr>location = \<lparr>Host = [], Port = 0\<rparr>, config_S = True, index = ''1'',
      nodeKey = ''/services/orders/1'', name = ''orders'', domain = ''api'',
      status = Some \<lparr>alive = ''true'', current = ''1'', expected = []\<rparr>\<rparr>" .
  have nm: "getEnvForNode (servicePrefix (config ?w)) ?n = Inr ''orders''"
    by (simp add: eval_keys example_config_def)
  have idx: "\<forall>r. client ?w (servicePrefix (config ?w) @ ''/'' @ ''orders'') True True = Some r \<longrightarrow>
           (\<forall>nd\<in>set (Nodes (Node r)). \<exists>x. getEnvIndexForNode (servicePrefix (config ?w)) nd = Inr x)"
    by (simp add: example_config_def etcd_undecodable_def etcd_of_def undecodable_instance_def eval_keys)
  from fields [where ns = "[]"] nm idx obtain w' where "registerService ?js ?n ''set'' ?w = Inr w'"
    by blast
  with a b show ?thesis by simp
qed




subsection \<open>The decoders\<close>

text \<open>
  C8. On a key its expression does not match, each decoder that takes a name, an index
  or a settings key from the key panics: lines 153, 158, 163 and 137 index the result
  of \<^verbatim>\<open>FindStringSubmatch\<close> without a check, and no decoder has a result for "no match".
  \<^verbatim>\<open>isDomainConfiguration\<close> accepts the key of a directory of settings, on which
  \<^verbatim>\<open>getDomainConfiguration\<close> panics (the defect of C4). The consumer of the watch hands
  the node of every response to the registrar, which panics on the key of the watched
  directory itself. \<^verbatim>\<open>removeDomainConfiguration\<close>, the one decoder that tests the length
  of the result (line 142), returns on such a key and leaves the watcher as it was.
\<close>

theorem decoders_panic_without_match:
  "getDomainForNode ''/domains'' (EtcdNode ''/domains'' [] []) = Inl IndexOutOfRange
   \<and> getEnvForNode ''/services'' (EtcdNode ''/services'' [] []) = Inl IndexOutOfRange
   \<and> getEnvIndexForNode ''/services'' (EtcdNode ''/services/orders'' [] []) = Inl IndexOutOfRange
   \<and> isDomainConfiguration ''/domains'' (EtcdNode ''/domains/api/config'' [] []) = True
   \<and> getDomainConfiguration ''/domains'' (EtcdNode ''/domains/api/config'' [] []) = Inl IndexOutOfRange
   \<and> watch_update registerDomain (Some \<lparr>Action = ''delete'', Node = EtcdNode ''/domains'' [] []\<rparr>)
        (example_watcher etcd_down Map.empty Map.empty) = Inl IndexOutOfRange
   \<and> watch_update (registerService example_json)
        (Some \<lparr>Action = ''delete'', Node = EtcdNode ''/services'' [] []\<rparr>)
        (example_watcher etcd_down Map.empty Map.empty) = Inl IndexOutOfRange
   \<and> removeDomainConfiguration (EtcdNode ''/domains'' [] [])
        (example_watcher etcd_down example_domains Map.empty) =
       Inr (example_watcher etcd_down example_domains Map.empty)"
  by (simp add: watch_update_def registerDomain_def registerService_def example_watcher_def
        example_config_def getDomainForNode_def getEnvForNode_def getEnvIndexForNode_def
        submatch_rest_def starts_with_def dot_star_def index_at_def
        isDomainConfiguration_def match_config_def contains_def
        getDomainConfiguration_def submatch_config_def removeDomainConfiguration_def)

subsection \<open>The same event twice\<close>

text \<open>
  C9. An event is delivered, the registrar returns, and the same event is delivered
  again while etcd answers as before. For a service, the second pass returns with both
  registries as the first left them and without a publish event in the trace. For a
  domain the same holds, unless the second pass panics; it can panic only when etcd's
  answer to the read of the domain's root holds a node whose key the expression of a
  settings leaf matches (line 117 then assigns into the nil map of the Domain the first
  pass has published). The key of a child of the root, \<open>P/name/segment\<close>, is never
  matched: on a listing of the root's children the second pass returns.
\<close>

theorem redelivery_publishes_nothing:
  "(registerDomain n action w = Inr w1 \<longrightarrow>
      (\<exists>e nm r. registerDomain n action w1 = Inl e
            \<and> getDomainForNode (domainPrefix (config w)) n = Inr nm
            \<and> client w (domainPrefix (config w) @ ''/'' @ nm) True False = Some r
            \<and> (\<exists>x\<in>set (Nodes (Node r)). submatch_config (domainPrefix (config w)) (Key x) \<noteq> None))
      \<or> (\<exists>w2. registerDomain n action w1 = Inr w2 \<and> domains w2 = domains w1
             \<and> services w2 = services w1 \<and> publishes w2 = publishes w1))
   \<and> (CHR ''/'' \<notin> set nm' \<longrightarrow> CHR ''/'' \<notin> set seg \<longrightarrow>
        submatch_config P (P @ ''/'' @ nm' @ ''/'' @ seg) = None)
   \<and> (registerService js n' action' v = Inr v1 \<longrightarrow>
      (\<exists>v2. registerService js n' action' v1 = Inr v2 \<and> services v2 = services v1
             \<and> domains v2 = domains v1 \<and> publishes v2 = publishes v1))"
  using registerDomain_again [of n action w w1] registerService_again [of js n' action' v v1]
    child_is_no_settings_leaf [of nm' seg P]
  by blast

theorem redelivery_publishes_nothing_witness:
  "(case registerDomain (EtcdNode ''/domains/api/type'' ''service'' []) ''set''
           (example_watcher (etcd_of [(''/domains/api'', api_plain)]) Map.empty Map.empty) of
      Inl e \<Rightarrow> False
    | Inr w1 \<Rightarrow>
        domains w1 ''api'' = Some api_domain
        \<and> (case registerDomain (EtcdNode ''/domains/api/type'' ''service'' []) ''set'' w1 of
             Inl e \<Rightarrow> False
           | Inr w2 \<Rightarrow> domains w2 = domains w1 \<and> services w2 = services w1
                       \<and> publishes w2 = publishes w1))
   \<and> (case registerService example_json (EtcdNode ''/services/orders/1/location'' [] []) ''set''
             (example_watcher etcd_orders Map.empty Map.empty) of
        Inl e \<Rightarrow> False
      | Inr v1 \<Rightarrow>
          cluster_indices v1 ''orders'' = {''1''}
          \<and> (case registerService example_json (EtcdNode ''/services/orders/1/location'' [] []) ''set'' v1 of
               Inl e \<Rightarrow> False
             | Inr v2 \<Rightarrow> services v2 = services v1 \<and> domains v2 = domains v1
                         \<and> publishes v2 = publishes v1))"
proof -
  let ?etcd = "etcd_of [(''/domains/api'', api_plain)]"
  let ?w = "example_watcher ?etcd Map.empty Map.empty"
  let ?n = "EtcdNode ''/domains/api/type'' ''service'' []"
  let ?w1 = "(example_watcher ?etcd [''api'' \<mapsto> api_domain] Map.empty)
         \<lparr>trace := [Get ''/domains/api'' True False, Registered_domain ''api'' ''service'' ''orders'']\<rparr>"
  let ?v = "example_watcher etcd_orders Map.empty Map.empty"
  let ?n' = "EtcdNode ''/services/orders/1/location'' [] []"
  note again = redelivery_publishes_nothing [of ?n "''set''" ?w ?w1, THEN conjunct1]
  have first: "registerDomain ?n ''set'' ?w = Inr ?w1" by (rule api_first_delivery)
  have nm: "getDomainForNode (domainPrefix (config ?w)) ?n = Inr ''api''"
    by (simp add: eval_keys example_watcher_def example_config_def)
  have r: "client ?w (domainPrefix (config ?w) @ ''/'' @ ''api'') True False =
             Some \<lparr>Action = ''get'', Node = api_plain\<rparr>"
    by (simp add: example_watcher_def example_config_def etcd_of_def)
  have nocfg: "\<not> (\<exists>x\<in>set (Nodes (Node \<lparr>Action = ''get'', Node = api_plain\<rparr>)).
                  submatch_config (domainPrefix (config ?w)) (Key x) \<noteq> None)"
    by (simp add: example_watcher_def example_config_def api_plain_def submatch_config_def
          starts_with_def dot_star_def)
  from again first nm r nocfg obtain w2 where
    "registerDomain ?n ''set'' ?w1 = Inr w2" "domains w2 = domains ?w1"
    "services w2 = services ?w1" "publishes w2 = publishes ?w1"
    by auto
  with first have dom: "case registerDomain ?n ''set'' ?w of
      Inl e \<Rightarrow> False
    | Inr w1 \<Rightarrow>
        domains w1 ''api'' = Some api_domain
        \<and> (case registerDomain ?n ''set'' w1 of
             Inl e \<Rightarrow> False
           | Inr w2 \<Rightarrow> domains w2 = domains w1 \<and> services w2 = services w1
                       \<and> publishes w2 = publishes w1)"
    by (simp add: example_watcher_def)
  have ix: "getEnvIndexForNode ''/services'' orders_instance_1 = Inr ''1''"
    by (simp add: eval_keys orders_instance_1_def)
  have snm: "getEnvForNode (servicePrefix (config ?v)) ?n' = Inr ''orders''"
    by (simp add: eval_keys example_watcher_def example_config_def)
  have root: "client ?v (servicePrefix (config ?v) @ ''/'' @ ''orders'') True True =
                Some \<lparr>Action = ''get'', Node = orders_root\<rparr>"
    by (simp add: example_watcher_def example_config_def etcd_orders_def etcd_of_def)
  have inst: "etcd_orders ''/services/orders/1'' True True = Some \<lparr>Action = ''get'', Node = orders_instance_1\<rparr>"
    by (simp add: etcd_orders_def etcd_of_def)
  obtain v1 where res: "registerService example_json ?n' ''set'' ?v = Inr v1"
    using snm ix root inst
    by (simp add: registerService_def example_watcher_def example_config_def orders_root_def
          Let_def emit_def publish_service_def cluster_Get_def new_ServiceCluster_def
          Service_equals_def)
  have "store_indices ?v ''orders'' (Nodes (Node \<lparr>Action = ''get'', Node = orders_root\<rparr>)) = {''1''}"
    using ix inst
    by (simp add: store_indices_def List.map_filter_simps readable_index_def instance_key_def
          orders_root_def example_watcher_def example_config_def)
  moreover have "cluster_indices ?v ''orders'' = {}"
    by (simp add: cluster_indices_def example_watcher_def)
  moreover have "''set'' \<noteq> ''delete''" by simp
  ultimately have idx: "cluster_indices v1 ''orders'' = {''1''}"
    using register_instances_indices [of example_json "''set''" "''orders''" "Nodes orders_root"
        "emit (Get ''/services/orders'' True True) ?v" v1] res snm root
    by (simp add: registerService_def Let_def example_watcher_def example_config_def)
  from redelivery_publishes_nothing [of ?n "''set''" ?w ?w1 _ _ _ example_json ?n' "''set''" ?v v1,
      THEN conjunct2, THEN conjunct2] res
  obtain v2 where "registerService example_json ?n' ''set'' v1 = Inr v2" "services v2 = services v1"
    "domains v2 = domains v1" "publishes v2 = publishes v1"
    by auto
  with res idx have "case registerService example_json ?n' ''set'' ?v of
        Inl e \<Rightarrow> False
      | Inr v1 \<Rightarrow>
          cluster_indices v1 ''orders'' = {''1''}
          \<and> (case registerService example_json ?n' ''set'' v1 of
               Inl e \<Rightarrow> False
             | Inr v2 \<Rightarrow> services v2 = services v1 \<and> domains v2 = domains v1
                         \<and> publishes v2 = publishes v1)"
    by simp
  with dom show ?thesis by blast
qed

subsection \<open>Removals\<close>

text \<open>
  C10. \<^verbatim>\<open>RemoveDomain d\<close> leaves every Domain but \<open>d\<close> and every cluster as it was;
  \<^verbatim>\<open>RemoveEnv s\<close> leaves every cluster but \<open>s\<close> and every Domain as it was; and when
  \<^verbatim>\<open>removeDomainConfiguration\<close> removes a setting of the Domain \<open>d\<close> (the key decodes
  to \<open>d\<close> and to the path \<open>g\<close> of the setting, and the call returns), every cluster and
  every other Domain is as it was, \<open>d\<close> is still registered with its kind and its
  target, and every setting of \<open>d\<close> but the removed one reads as before.
\<close>

theorem removals_leave_the_rest:
  "(\<forall>d'. d' \<noteq> d \<longrightarrow> domains (RemoveDomain d w) d' = domains w d')
   \<and> services (RemoveDomain d w) = services w
   \<and> (\<forall>s'. s' \<noteq> s \<longrightarrow> services (RemoveEnv s w) s' = services w s')
   \<and> domains (RemoveEnv s w) = domains w
   \<and> (submatch_config (domainPrefix (config w)) (Key n) = Some (d, g) \<longrightarrow>
      removeDomainConfiguration n w = Inr w' \<longrightarrow>
        services w' = services w
        \<and> (\<forall>d'. d' \<noteq> d \<longrightarrow> domains w' d' = domains w d')
        \<and> domains w' d \<noteq> None
        \<and> map_option kind_target (domains w' d) = map_option kind_target (domains w d)
        \<and> (\<forall>k'. k' \<noteq> hd (Split g CHR ''/'') \<longrightarrow>
              map_option (\<lambda>x. config_get x k') (domains w' d) =
              map_option (\<lambda>x. config_get x k') (domains w d)))"
  using removeDomainConfiguration_frame [of w n d g w']
  by (simp add: RemoveDomain_def RemoveEnv_def)

theorem removals_leave_the_rest_witness:
  "submatch_config (domainPrefix (config (example_watcher etcd_down example_domains Map.empty)))
      (Key (EtcdNode ''/domains/api/config/timeout'' [] [])) = Some (''api'', ''timeout'')
   \<and> (case removeDomainConfiguration (EtcdNode ''/domains/api/config/timeout'' [] [])
             (example_watcher etcd_down example_domains Map.empty) of
        Inl e \<Rightarrow> False
      | Inr w' \<Rightarrow>
          domains w' ''www'' = example_domains ''www''
          \<and> map_option kind_target (domains w' ''api'') = Some (''service'', ''orders'')
          \<and> map_option (\<lambda>x. config_get x ''retries'') (domains w' ''api'') = Some (Some ''2''))"
proof -
  let ?w = "example_watcher etcd_down example_domains Map.empty"
  let ?n = "EtcdNode ''/domains/api/config/timeout'' [] []"
  have m: "submatch_config (domainPrefix (config ?w)) (Key ?n) = Some (''api'', ''timeout'')"
    by (simp add: example_watcher_def example_config_def submatch_config_def starts_with_def dot_star_def)
  obtain w' where r: "removeDomainConfiguration ?n ?w = Inr w'"
    using m by (simp add: removeDomainConfiguration_def example_watcher_def example_domains_def index_at_Split_0)
  have s: "hd (Split ''timeout'' CHR ''/'') = ''timeout''" by simp
  from removals_leave_the_rest [of "''api''" ?w _ ?n "''timeout''" w'] m r s
  have "domains w' ''www'' = domains ?w ''www''"
    and "map_option kind_target (domains w' ''api'') = map_option kind_target (domains ?w ''api'')"
    and "map_option (\<lambda>x. config_get x ''retries'') (domains w' ''api'') =
         map_option (\<lambda>x. config_get x ''retries'') (domains ?w ''api'')"
    by simp_all
  then show ?thesis using m r
    by (simp add: example_watcher_def example_domains_def kind_target_def config_get_def)
qed

end
